theory Spec2Isabelle
  imports Main "HOL-Library.Word"
begin

section \<open>JavaScript strings\<close>

text \<open>
  A JavaScript string is a sequence of UTF-16 code units; \<open>s.length\<close> counts code units.
  Literals of the source are written as Isabelle strings and embedded with \<open>js\<close>.
\<close>

type_synonym code_unit = "16 word"
type_synonym js_string = "code_unit list"

definition js :: "string \<Rightarrow> js_string" where
  "js s = map (\<lambda>c. of_nat (of_char c)) s"

text \<open>
  The code units that \<open>String.prototype.trim\<close> strips and that \<open>\s\<close> matches in a
  regular expression without the \<open>u\<close> flag: ECMAScript's WhiteSpace and LineTerminator.
\<close>

definition isWhiteSpace :: "code_unit \<Rightarrow> bool" where
  "isWhiteSpace c \<longleftrightarrow>
     c \<in> {0x0009, 0x000A, 0x000B, 0x000C, 0x000D, 0x0020, 0x00A0, 0x1680,
           0x2028, 0x2029, 0x202F, 0x205F, 0x3000, 0xFEFF}
     \<or> (0x2000 \<le> c \<and> c \<le> 0x200A)"

definition trim :: "js_string \<Rightarrow> js_string" where
  "trim s = rev (dropWhile isWhiteSpace (rev (dropWhile isWhiteSpace s)))"

text \<open>
  \<open>encodeURIComponent\<close> throws a \<open>URIError\<close> when its argument is not well formed
  UTF-16: when it holds a high surrogate that no low surrogate follows, or a low
  surrogate that no high surrogate precedes.
\<close>

definition isHighSurrogate :: "code_unit \<Rightarrow> bool" where
  "isHighSurrogate c \<longleftrightarrow> 0xD800 \<le> c \<and> c \<le> 0xDBFF"

definition isLowSurrogate :: "code_unit \<Rightarrow> bool" where
  "isLowSurrogate c \<longleftrightarrow> 0xDC00 \<le> c \<and> c \<le> 0xDFFF"

fun wellFormed :: "js_string \<Rightarrow> bool" where
  "wellFormed [] = True"
| "wellFormed [c] = (\<not> isHighSurrogate c \<and> \<not> isLowSurrogate c)"
| "wellFormed (c # d # cs) =
     (if isHighSurrogate c then isLowSurrogate d \<and> wellFormed cs
      else \<not> isLowSurrogate c \<and> wellFormed (d # cs))"

text \<open>\<open>a || b\<close> on strings: the empty string is falsy.\<close>

definition or_else :: "js_string option \<Rightarrow> js_string \<Rightarrow> js_string" where
  "or_else a b = (case a of None \<Rightarrow> b | Some x \<Rightarrow> if x = [] then b else x)"

section \<open>Theme store (lib/theme)\<close>

text \<open>The field \<open>text\<close> of the source's theme objects is \<open>text_colour\<close> here.\<close>

record Theme =
  background :: string
  surface :: string
  primary :: string
  primaryDark :: string
  text_colour :: string
  textSecondary :: string
  border :: string
  error_colour :: string
  success :: string
  warning :: string
  disabled :: string

definition lightTheme :: Theme where
  "lightTheme = \<lparr> background = ''#f9fafb'', surface = ''#ffffff'', primary = ''#6366f1'',
     primaryDark = ''#4f46e5'', text_colour = ''#111827'', textSecondary = ''#6b7280'',
     border = ''#e5e7eb'', error_colour = ''#ef4444'', success = ''#10b981'',
     warning = ''#fbbf24'', disabled = ''#d1d5db'' \<rparr>"

definition darkTheme :: Theme where
  "darkTheme = \<lparr> background = ''#111827'', surface = ''#1f2937'', primary = ''#818cf8'',
     primaryDark = ''#6366f1'', text_colour = ''#f9fafb'', textSecondary = ''#9ca3af'',
     border = ''#374151'', error_colour = ''#f87171'', success = ''#34d399'',
     warning = ''#fbbf24'', disabled = ''#4b5563'' \<rparr>"

record ThemeState =
  isDark :: bool
  theme :: Theme

definition initialThemeState :: ThemeState where
  "initialThemeState = \<lparr> isDark = False, theme = lightTheme \<rparr>"

definition toggleTheme :: "ThemeState \<Rightarrow> ThemeState" where
  "toggleTheme state =
     state \<lparr> isDark := \<not> isDark state,
             theme := (if \<not> isDark state then darkTheme else lightTheme) \<rparr>"

definition setTheme :: "bool \<Rightarrow> ThemeState \<Rightarrow> ThemeState" where
  "setTheme d state = state \<lparr> isDark := d, theme := (if d then darkTheme else lightTheme) \<rparr>"

text \<open>The invariant of the store: the palette is the one the flag selects.\<close>

definition theme_consistent :: "ThemeState \<Rightarrow> bool" where
  "theme_consistent state \<longleftrightarrow>
     theme state = (if isDark state then darkTheme else lightTheme)"

section \<open>Regular expressions\<close>

text \<open>
  The fragment of JavaScript's regular expressions that the source uses: literal
  characters, negated character classes, \<open>+\<close> and concatenation, matched against the
  whole input as \<open>^...$\<close> asks. \<open>Never\<close>, \<open>Empty\<close>, \<open>Alt\<close> and \<open>Star\<close> only
  arise while matching, as derivatives.
\<close>

datatype class_item = WhiteSpaceEscape | ClassChar code_unit

fun class_item_matches :: "class_item \<Rightarrow> code_unit \<Rightarrow> bool" where
  "class_item_matches WhiteSpaceEscape c = isWhiteSpace c"
| "class_item_matches (ClassChar d) c = (c = d)"

datatype regex =
    Never
  | Empty
  | Lit code_unit
  | NegClass "class_item list"
  | Alt regex regex
  | Seq regex regex
  | Star regex
  | Plus regex

fun nullable :: "regex \<Rightarrow> bool" where
  "nullable Never = False"
| "nullable Empty = True"
| "nullable (Lit d) = False"
| "nullable (NegClass items) = False"
| "nullable (Alt r s) = (nullable r \<or> nullable s)"
| "nullable (Seq r s) = (nullable r \<and> nullable s)"
| "nullable (Star r) = True"
| "nullable (Plus r) = nullable r"

fun deriv :: "code_unit \<Rightarrow> regex \<Rightarrow> regex" where
  "deriv c Never = Never"
| "deriv c Empty = Never"
| "deriv c (Lit d) = (if c = d then Empty else Never)"
| "deriv c (NegClass items) = (if list_ex (\<lambda>i. class_item_matches i c) items then Never else Empty)"
| "deriv c (Alt r s) = Alt (deriv c r) (deriv c s)"
| "deriv c (Seq r s) =
     (if nullable r then Alt (Seq (deriv c r) s) (deriv c s) else Seq (deriv c r) s)"
| "deriv c (Star r) = Seq (deriv c r) (Star r)"
| "deriv c (Plus r) = Seq (deriv c r) (Star r)"

definition regex_test :: "regex \<Rightarrow> js_string \<Rightarrow> bool" where
  "regex_test r s = nullable (foldl (\<lambda>r c. deriv c r) r s)"

definition emailRegex :: regex where
  "emailRegex =
     Seq (Plus (NegClass [WhiteSpaceEscape, ClassChar 0x40]))
       (Seq (Lit 0x40)
         (Seq (Plus (NegClass [WhiteSpaceEscape, ClassChar 0x40]))
           (Seq (Lit 0x2E)
             (Plus (NegClass [WhiteSpaceEscape, ClassChar 0x40])))))"


section \<open>HTTP\<close>

text \<open>
  What an awaited \<open>fetch\<close> gives the code: the promise rejects (\<open>Rejected\<close>, with the
  message of the error; a body that \<open>response.json()\<close> cannot parse rejects in the same
  \<open>try\<close> block), or a response arrives with \<open>response.ok\<close> false or true and its
  parsed body.
\<close>

datatype ('e, 'a) http_result = Rejected js_string | HttpError 'e | HttpOk 'a

record ErrorBody =
  detail :: "js_string option"

datatype Stance = Pro | Con

text \<open>
  A request: its method, its path and its string parameters; \<open>POST /battle/create\<close>
  with its \<open>topic_id\<close> and \<open>stance\<close> is a request of its own.
\<close>

datatype request =
    Request string string "(string \<times> js_string) list"
  | CreateBattleRequest int Stance

text \<open>
  The exceptions of the code: an \<open>Error\<close> with its message, and the \<open>URIError\<close> of
  \<open>encodeURIComponent\<close>, whose message is the engine's.
\<close>

datatype js_error = Error js_string | URIError

fun message :: "js_error \<Rightarrow> js_string" where
  "message (Error m) = m"
| "message URIError = js ''URI malformed''"

section \<open>Auth store (lib/authStore.ts)\<close>

record User =
  user_id :: js_string
  user_name :: js_string
  user_email :: js_string

record AuthData =
  access_token :: js_string
  data_user :: User

text \<open>
  The store's \<open>token\<close>, \<open>user\<close> and \<open>isLoading\<close>, together with what the store's
  actions act on: AsyncStorage (a map from keys to strings, whose operations succeed),
  the requests sent and the console.
\<close>

record AuthWorld =
  token :: "js_string option"
  user :: "User option"
  isLoading :: bool
  storage :: "string \<rightharpoonup> js_string"
  requests :: "request list"
  console :: "string list"

text \<open>
  \<open>login\<close> and \<open>register\<close> build the URL of their request with
  \<open>encodeURIComponent\<close> inside the \<open>try\<close> block: on an argument that is not well
  formed no request is sent, and the \<open>URIError\<close> is logged and thrown again like any
  other failure.
\<close>

definition initialAuthWorld :: AuthWorld where
  "initialAuthWorld = \<lparr> token = None, user = None, isLoading = True,
     storage = Map.empty, requests = [], console = [] \<rparr>"


definition register ::
  "js_string \<Rightarrow> js_string \<Rightarrow> js_string \<Rightarrow> (ErrorBody, AuthData) http_result \<Rightarrow> AuthWorld
     \<Rightarrow> (js_error + unit) \<times> AuthWorld" where
  "register username email password response w =
     (if \<not> (wellFormed username \<and> wellFormed email \<and> wellFormed password) then
        (Inl URIError, w \<lparr> console := console w @ [''Registration error:''] \<rparr>)
      else
        (let w1 = w \<lparr> requests := requests w @
                    [Request ''POST'' ''/auth/register''
                       [(''username'', username), (''email'', email), (''password'', password)]] \<rparr>
         in case response of
              Rejected msg \<Rightarrow>
                (Inl (Error msg), w1 \<lparr> console := console w1 @ [''Registration error:''] \<rparr>)
            | HttpError body \<Rightarrow>
                (Inl (Error (or_else (detail body) (js ''Registration failed''))),
                 w1 \<lparr> console := console w1 @ [''Registration error:''] \<rparr>)
            | HttpOk data \<Rightarrow>
                (Inr (),
                 w1 \<lparr> storage := (storage w1)(''auth_token'' \<mapsto> access_token data),
                      token := Some (access_token data),
                      user := Some (data_user data) \<rparr>)))"



definition setToken :: "js_string option \<Rightarrow> AuthWorld \<Rightarrow> AuthWorld" where
  "setToken t w = w \<lparr> token := t \<rparr>"




definition sampleAuthData :: AuthData where
  "sampleAuthData = \<lparr> access_token = js ''tok-1'',
     data_user = \<lparr> user_id = js ''u1'', user_name = js ''alice'',
                   user_email = js ''alice@example.com'' \<rparr> \<rparr>"


section \<open>Register screen\<close>

text \<open>
  What a screen does to the user interface: \<open>Alert.alert(title, message)\<close>, the same
  with a button of its own (title, message, label of the button), and \<open>router.replace\<close>
  and \<open>router.push\<close> to a path with its parameters.
\<close>

datatype ui_effect =
    Alert string js_string
  | AlertButton js_string js_string string
  | RouterReplace string "(string \<times> js_string) list"
  | RouterPush string "(string \<times> js_string) list"

record RegisterScreen =
  username :: js_string
  email :: js_string
  password :: js_string
  confirmPassword :: js_string
  reg_isLoading :: bool

text \<open>
  \<open>handleRegister\<close>: the alerts and navigations it causes, the screen's state and the
  auth world afterwards. The answer of the server is read only when the request is sent.
\<close>

definition handleRegister ::
  "RegisterScreen \<Rightarrow> (ErrorBody, AuthData) http_result \<Rightarrow> AuthWorld
     \<Rightarrow> ui_effect list \<times> RegisterScreen \<times> AuthWorld" where
  "handleRegister scr response w =
     (if trim (username scr) = [] \<or> trim (email scr) = [] \<or> trim (password scr) = [] then
        ([Alert ''Error'' (js ''Please fill in all fields'')], scr, w)
      else if password scr \<noteq> confirmPassword scr then
        ([Alert ''Error'' (js ''Passwords do not match'')], scr, w)
      else if length (password scr) < 6 then
        ([Alert ''Error'' (js ''Password must be at least 6 characters'')], scr, w)
      else if \<not> regex_test emailRegex (email scr) then
        ([Alert ''Error'' (js ''Please enter a valid email address'')], scr, w)
      else
        (case register (username scr) (email scr) (password scr) response w of
           (Inr _, w') \<Rightarrow> ([RouterReplace ''/home'' []], scr \<lparr> reg_isLoading := False \<rparr>, w')
         | (Inl err, w') \<Rightarrow>
             ([Alert ''Registration Failed''
                 (or_else (Some (message err)) (js ''Could not create account''))],
              scr \<lparr> reg_isLoading := False \<rparr>, w')))"

text \<open>A field is blank when it holds white space only (or nothing).\<close>

definition blank :: "js_string \<Rightarrow> bool" where
  "blank s = list_all isWhiteSpace s"

definition is_alert :: "ui_effect \<Rightarrow> bool" where
  "is_alert e =
     (case e of
        Alert t m \<Rightarrow> True
      | AlertButton t m b \<Rightarrow> True
      | RouterReplace p ps \<Rightarrow> False
      | RouterPush p ps \<Rightarrow> False)"

definition sampleForm :: RegisterScreen where
  "sampleForm = \<lparr> username = js ''alice'', email = js ''alice@example.com'',
     password = js ''secret1'', confirmPassword = js ''secret1'', reg_isLoading = False \<rparr>"

definition register_request :: "RegisterScreen \<Rightarrow> request" where
  "register_request scr =
     Request ''POST'' ''/auth/register''
       [(''username'', username scr), (''email'', email scr), (''password'', password scr)]"

section \<open>Effects of a screen\<close>

text \<open>
  What a screen's code does besides changing its own state, in the order it happens:
  requests sent with \<open>fetch\<close>, calls of a \<open>useState\<close> setter (by the name of the state
  variable), \<open>console.error\<close>, and alerts and navigations.
\<close>

datatype effect = Fetch request | StateUpdate string | ConsoleError string | Ui ui_effect

fun requests_of :: "effect list \<Rightarrow> request list" where
  "requests_of [] = []"
| "requests_of (Fetch r # es) = r # requests_of es"
| "requests_of (e # es) = requests_of es"

fun navigations_of :: "effect list \<Rightarrow> ui_effect list" where
  "navigations_of [] = []"
| "navigations_of (Ui (RouterReplace p ps) # es) = RouterReplace p ps # navigations_of es"
| "navigations_of (e # es) = navigations_of es"

fun state_updates_of :: "effect list \<Rightarrow> string list" where
  "state_updates_of [] = []"
| "state_updates_of (StateUpdate n # es) = n # state_updates_of es"
| "state_updates_of (e # es) = state_updates_of es"

fun console_of :: "effect list \<Rightarrow> string list" where
  "console_of [] = []"
| "console_of (ConsoleError m # es) = m # console_of es"
| "console_of (e # es) = console_of es"

section \<open>Battle room screen\<close>

text \<open>The three segment kinds of the source, \<open>opening\<close>, \<open>rebuttal\<close> and \<open>closing\<close>.\<close>

datatype SegmentKind = Opening | Rebuttal | Closing

record Topic =
  topic_id :: int
  title :: js_string
  description :: js_string

record Player =
  p_id :: js_string
  p_username :: js_string
  stance :: js_string
  segments :: "SegmentKind \<rightharpoonup> bool"

text \<open>
  The field \<open>judgment\<close> of the source is \<open>judgement\<close> here. It has type \<open>any\<close>
  in the source and is only tested for truthiness and serialised with
  \<open>JSON.stringify\<close>: \<open>None\<close> is a falsy judgment (\<open>null\<close>), \<open>Some j\<close> a truthy one
  with serialisation \<open>j\<close>. The fields \<open>id\<close> and \<open>username\<close> of a player are
  \<open>p_id\<close> and \<open>p_username\<close>.
\<close>

record BattleStatus =
  battle_id :: js_string
  status :: js_string
  current_turn :: js_string
  current_segment :: SegmentKind
  topic :: Topic
  player1 :: Player
  player2 :: "Player option"
  is_your_turn :: bool
  winner_id :: "js_string option"
  judgement :: "js_string option"

record SegmentData =
  kind :: SegmentKind
  transcript :: js_string
  player_id :: js_string

text \<open>
  The state of one mounted battle room: the route parameter \<open>battleId\<close>, the user id read
  from the auth store, the \<open>useState\<close> variables of polling, submitting and judging,
  the ref \<open>isMounted.current\<close>, and what the JavaScript runtime holds for the screen:
  the two interval timers (their period in ms while registered), the number of requests
  of each kind that were sent and have not been answered yet, the 100 ms timeouts that
  were set and have not run yet (each with the \<open>judgmentData\<close> its callback navigates
  with), and the effects so far. A status request is counted in \<open>statusPending\<close> when
  a poll sent it and in \<open>submitStatusPending\<close> when \<open>submitSegment\<close> sent it and
  awaits it. Audio recording and transcription only feed \<open>textInput\<close>; they are
  present as changes of the text.
\<close>

record Room =
  battleId :: js_string
  currentUserId :: "js_string option"
  textInput :: js_string
  battleStatus :: "BattleStatus option"
  opponentTranscripts :: "SegmentData list"
  isSubmitting :: bool
  isJudging :: bool
  loading :: bool
  isMounted :: bool
  statusInterval :: "nat option"
  segmentsInterval :: "nat option"
  statusPending :: nat
  segmentsPending :: nat
  submitPending :: nat
  submitStatusPending :: nat
  judgePending :: nat
  navTimers :: "js_string list"
  trace :: "effect list"

text \<open>
  A call of a \<open>useState\<close> setter: React applies it while the screen is mounted and drops
  it afterwards; the call happens either way.
\<close>

definition setState :: "string \<Rightarrow> (Room \<Rightarrow> Room) \<Rightarrow> Room \<Rightarrow> Room" where
  "setState name upd s =
     (if isMounted s then upd s else s) \<lparr> trace := trace s @ [StateUpdate name] \<rparr>"

definition statusRequest :: "Room \<Rightarrow> request" where
  "statusRequest s = Request ''GET'' ''/battle/{battleId}/status'' [(''battleId'', battleId s)]"

definition segmentsRequest :: "Room \<Rightarrow> request" where
  "segmentsRequest s = Request ''GET'' ''/battle/{battleId}/segments'' [(''battleId'', battleId s)]"

fun kind_name :: "SegmentKind \<Rightarrow> js_string" where
  "kind_name Opening = js ''opening''"
| "kind_name Rebuttal = js ''rebuttal''"
| "kind_name Closing = js ''closing''"

definition segmentRequest :: "Room \<Rightarrow> SegmentKind \<Rightarrow> request" where
  "segmentRequest s k =
     Request ''POST'' ''/battle/{battleId}/segment''
       [(''battleId'', battleId s), (''kind'', kind_name k), (''text'', textInput s)]"

definition judgeRequest :: "Room \<Rightarrow> request" where
  "judgeRequest s = Request ''POST'' ''/battle/{battleId}/judge'' [(''battleId'', battleId s)]"

text \<open>
  An \<open>async\<close> function runs up to its \<open>await fetch(...)\<close> when it is called (\<open>_start\<close>)
  and continues when the request is answered (\<open>_settle\<close>); other events can happen in
  between.
\<close>

definition fetchBattleStatus_start :: "Room \<Rightarrow> Room" where
  "fetchBattleStatus_start s =
     s \<lparr> statusPending := Suc (statusPending s), trace := trace s @ [Fetch (statusRequest s)] \<rparr>"

definition fetchOpponentSegments_start :: "Room \<Rightarrow> Room" where
  "fetchOpponentSegments_start s =
     s \<lparr> segmentsPending := Suc (segmentsPending s),
         trace := trace s @ [Fetch (segmentsRequest s)] \<rparr>"

text \<open>
  The effect with dependency \<open>[battleStatus]\<close>, run after a render in which
  \<open>battleStatus\<close> was replaced: first the cleanup of its previous run (which clears the
  interval that run registered, if any), then its body.
\<close>

definition segmentsEffect :: "Room \<Rightarrow> Room" where
  "segmentsEffect s =
     (let s0 = s \<lparr> segmentsInterval := None \<rparr>
      in case battleStatus s0 of
           None \<Rightarrow> s0
         | Some b \<Rightarrow>
             if status b = js ''in_progress''
             then (fetchOpponentSegments_start s0) \<lparr> segmentsInterval := Some 3000 \<rparr>
             else s0)"

definition fetchBattleStatus_settle :: "(unit, BattleStatus) http_result \<Rightarrow> Room \<Rightarrow> Room" where
  "fetchBattleStatus_settle response s =
     (case response of
        HttpOk data \<Rightarrow>
          (let s1 = setState ''battleStatus'' (\<lambda>r. r \<lparr> battleStatus := Some data \<rparr>) s;
               s2 = (case judgement data of
                       None \<Rightarrow> s1
                     | Some j \<Rightarrow>
                         if status data = js ''completed'' \<and> isMounted s1
                         then s1 \<lparr> navTimers := navTimers s1 @ [j] \<rparr>
                         else s1);
               s3 = setState ''loading'' (\<lambda>r. r \<lparr> loading := False \<rparr>) s2
           in if isMounted s3 then segmentsEffect s3 else s3)
      | HttpError body \<Rightarrow> setState ''loading'' (\<lambda>r. r \<lparr> loading := False \<rparr>) s
      | Rejected msg \<Rightarrow>
          setState ''loading'' (\<lambda>r. r \<lparr> loading := False \<rparr>)
            (s \<lparr> trace := trace s @ [ConsoleError ''Failed to fetch battle status:''] \<rparr>))"

text \<open>The callback of \<open>setTimeout(..., 100)\<close>; timeouts of equal delay run in the order set.\<close>

definition navTimer_fire :: "Room \<Rightarrow> Room" where
  "navTimer_fire s =
     (case navTimers s of
        [] \<Rightarrow> s
      | j # rest \<Rightarrow>
          (let s1 = s \<lparr> navTimers := rest \<rparr>
           in if isMounted s1
              then s1 \<lparr> trace := trace s1 @
                     [Ui (RouterReplace ''/battle/results''
                            [(''battleId'', battleId s1), (''judgmentData'', j)])] \<rparr>
              else s1))"

definition fetchOpponentSegments_settle ::
  "(unit, SegmentData list) http_result \<Rightarrow> Room \<Rightarrow> Room" where
  "fetchOpponentSegments_settle response s =
     (case response of
        HttpOk segs \<Rightarrow>
          setState ''opponentTranscripts''
            (\<lambda>r. r \<lparr> opponentTranscripts :=
                       filter (\<lambda>seg. Some (player_id seg) \<noteq> currentUserId s) segs \<rparr>) s
      | HttpError body \<Rightarrow> s
      | Rejected msg \<Rightarrow>
          s \<lparr> trace := trace s @ [ConsoleError ''Failed to fetch opponent segments:''] \<rparr>)"

definition alert :: "string \<Rightarrow> js_string \<Rightarrow> Room \<Rightarrow> Room" where
  "alert t m s = s \<lparr> trace := trace s @ [Ui (Alert t m)] \<rparr>"

text \<open>
  \<open>submitSegment\<close>. The text goes through \<open>encodeURIComponent\<close> inside the \<open>try\<close>
  block: a text that is not well formed sends nothing and ends in the \<open>catch\<close> and
  \<open>finally\<close> blocks at once. After an OK answer \<open>submitSegment\<close> calls
  \<open>fetchBattleStatus\<close> and awaits it, so its \<open>finally\<close> block runs when that status
  request has been answered and handled.
\<close>

definition submitSegment_start :: "Room \<Rightarrow> Room" where
  "submitSegment_start s =
     (if trim (textInput s) = [] then alert ''Error'' (js ''Please enter your argument'') s
      else
        (case battleStatus s of
           None \<Rightarrow> alert ''Error'' (js (''It'' @ [CHR 0x27] @ ''s not your turn'')) s
         | Some b \<Rightarrow>
             if \<not> is_your_turn b then alert ''Error'' (js (''It'' @ [CHR 0x27] @ ''s not your turn'')) s
             else
               (let s1 = setState ''isSubmitting'' (\<lambda>r. r \<lparr> isSubmitting := True \<rparr>) s
                in if \<not> wellFormed (textInput s) then
                     setState ''isSubmitting'' (\<lambda>r. r \<lparr> isSubmitting := False \<rparr>)
                       (alert ''Error'' (js ''Failed to submit segment'')
                          (s1 \<lparr> trace := trace s1 @ [ConsoleError ''Failed to submit segment:''] \<rparr>))
                   else
                     s1 \<lparr> submitPending := Suc (submitPending s1),
                          trace := trace s1 @ [Fetch (segmentRequest s1 (current_segment b))] \<rparr>)))"

definition submitSegment_settle :: "(ErrorBody, unit) http_result \<Rightarrow> Room \<Rightarrow> Room" where
  "submitSegment_settle response s =
     (case response of
        HttpOk data \<Rightarrow>
          (let s1 = setState ''textInput'' (\<lambda>r. r \<lparr> textInput := [] \<rparr>) s;
               s2 = alert ''Success'' (js ''Segment submitted! Waiting for opponent...'') s1
           in s2 \<lparr> submitStatusPending := Suc (submitStatusPending s2),
                   trace := trace s2 @ [Fetch (statusRequest s2)] \<rparr>)
      | HttpError body \<Rightarrow>
          setState ''isSubmitting'' (\<lambda>r. r \<lparr> isSubmitting := False \<rparr>)
            (alert ''Error'' (or_else (detail body) (js ''Failed to submit segment'')) s)
      | Rejected msg \<Rightarrow>
          setState ''isSubmitting'' (\<lambda>r. r \<lparr> isSubmitting := False \<rparr>)
            (alert ''Error'' (js ''Failed to submit segment'')
               (s \<lparr> trace := trace s @ [ConsoleError ''Failed to submit segment:''] \<rparr>)))"

definition submitStatus_settle :: "(unit, BattleStatus) http_result \<Rightarrow> Room \<Rightarrow> Room" where
  "submitStatus_settle response s =
     setState ''isSubmitting'' (\<lambda>r. r \<lparr> isSubmitting := False \<rparr>)
       (fetchBattleStatus_settle response s)"

definition requestJudgment_start :: "Room \<Rightarrow> Room" where
  "requestJudgment_start s =
     (let s1 = setState ''isJudging'' (\<lambda>r. r \<lparr> isJudging := True \<rparr>) s
      in s1 \<lparr> judgePending := Suc (judgePending s1),
              trace := trace s1 @ [Fetch (judgeRequest s1)] \<rparr>)"

definition requestJudgment_settle :: "(ErrorBody, unit) http_result \<Rightarrow> Room \<Rightarrow> Room" where
  "requestJudgment_settle response s =
     setState ''isJudging'' (\<lambda>r. r \<lparr> isJudging := False \<rparr>)
       (case response of
          HttpOk data \<Rightarrow>
            alert ''Success'' (js ''AI is analyzing the debate. Results will appear shortly...'') s
        | HttpError body \<Rightarrow>
            alert ''Error'' (or_else (detail body) (js ''Failed to judge battle'')) s
        | Rejected msg \<Rightarrow>
            alert ''Error'' (js ''Failed to judge battle'')
              (s \<lparr> trace := trace s @ [ConsoleError ''Failed to judge battle:''] \<rparr>))"

subsection \<open>What the room renders\<close>

text \<open>\<open>Object.values\<close> of a segment record: the values of the keys it has.\<close>

definition object_values :: "(SegmentKind \<rightharpoonup> bool) \<Rightarrow> bool list" where
  "object_values m = List.map_filter m [Opening, Rebuttal, Closing]"

definition isPlayer1 :: "js_string option \<Rightarrow> BattleStatus \<Rightarrow> bool" where
  "isPlayer1 uid b \<longleftrightarrow> uid = Some (p_id (player1 b))"

definition player2_segments :: "BattleStatus \<Rightarrow> (SegmentKind \<rightharpoonup> bool)" where
  "player2_segments b = (case player2 b of None \<Rightarrow> Map.empty | Some p \<Rightarrow> segments p)"

definition mySegments :: "js_string option \<Rightarrow> BattleStatus \<Rightarrow> (SegmentKind \<rightharpoonup> bool)" where
  "mySegments uid b = (if isPlayer1 uid b then segments (player1 b) else player2_segments b)"

definition opponentSegments :: "js_string option \<Rightarrow> BattleStatus \<Rightarrow> (SegmentKind \<rightharpoonup> bool)" where
  "opponentSegments uid b = (if isPlayer1 uid b then player2_segments b else segments (player1 b))"

definition allSegmentsComplete :: "js_string option \<Rightarrow> BattleStatus \<Rightarrow> bool" where
  "allSegmentsComplete uid b \<longleftrightarrow>
     length (filter (\<lambda>v. v) (object_values (mySegments uid b))) = 3
     \<and> length (filter (\<lambda>v. v) (object_values (opponentSegments uid b))) = 3"

record RoomView =
  waitingCard :: bool
  inputCard :: bool
  submitDisabled :: bool
  transcriptsCard :: bool
  judgeButton :: bool
  judgeButtonDisabled :: bool

datatype rendered = LoadingIndicator | RoomScreen RoomView

definition render :: "Room \<Rightarrow> rendered" where
  "render s =
     (case battleStatus s of
        None \<Rightarrow> LoadingIndicator
      | Some b \<Rightarrow>
          if loading s then LoadingIndicator
          else RoomScreen
            \<lparr> waitingCard = (player2 b = None),
              inputCard = (\<not> allSegmentsComplete (currentUserId s) b),
              submitDisabled =
                (\<not> is_your_turn b \<or> isSubmitting s
                 \<or> mySegments (currentUserId s) b (current_segment b) = Some True),
              transcriptsCard = (length (opponentTranscripts s) > 0),
              judgeButton = allSegmentsComplete (currentUserId s) b,
              judgeButtonDisabled = isJudging s \<rparr>)"

definition judgeButtonShown :: "Room \<Rightarrow> bool" where
  "judgeButtonShown s = (case render s of LoadingIndicator \<Rightarrow> False | RoomScreen v \<Rightarrow> judgeButton v)"

definition inputCardShown :: "Room \<Rightarrow> bool" where
  "inputCardShown s = (case render s of LoadingIndicator \<Rightarrow> False | RoomScreen v \<Rightarrow> inputCard v)"

definition submitButtonEnabled :: "Room \<Rightarrow> bool" where
  "submitButtonEnabled s =
     (case render s of
        LoadingIndicator \<Rightarrow> False
      | RoomScreen v \<Rightarrow> inputCard v \<and> \<not> submitDisabled v)"

definition judgeButtonEnabled :: "Room \<Rightarrow> bool" where
  "judgeButtonEnabled s =
     (case render s of
        LoadingIndicator \<Rightarrow> False
      | RoomScreen v \<Rightarrow> judgeButton v \<and> \<not> judgeButtonDisabled v)"

subsection \<open>Life of the room\<close>

text \<open>
  The state after the first render and its effects, in the order of the source: the
  mounted flag is set, \<open>fetchBattleStatus\<close> is called once and its 2000 ms interval is
  registered; the effect on \<open>[battleStatus]\<close> finds no status and does nothing.
\<close>

definition mount :: "js_string \<Rightarrow> js_string option \<Rightarrow> Room" where
  "mount bid uid =
     (fetchBattleStatus_start
        \<lparr> battleId = bid, currentUserId = uid, textInput = [], battleStatus = None,
          opponentTranscripts = [], isSubmitting = False, isJudging = False, loading = True,
          isMounted = True, statusInterval = None, segmentsInterval = None,
          statusPending = 0, segmentsPending = 0, submitPending = 0, submitStatusPending = 0,
          judgePending = 0, navTimers = [], trace = [] \<rparr>)
       \<lparr> statusInterval := Some 2000 \<rparr>"

text \<open>The cleanups of the three effects, run when the screen is removed.\<close>

definition unmount :: "Room \<Rightarrow> Room" where
  "unmount s = s \<lparr> isMounted := False, statusInterval := None, segmentsInterval := None \<rparr>"

text \<open>
  What can happen to a room: an interval timer fires, a request is answered, a timeout
  runs, the text of the input changes, the user presses the submit or the judge button,
  the screen is removed. An event that cannot
  happen in a state (a tick of a cleared interval, an answer without a request, a press
  on a button that is not shown or is disabled) leaves it as it is.
\<close>

datatype event =
    StatusTick
  | StatusResponse "(unit, BattleStatus) http_result"
  | SegmentsTick
  | SegmentsResponse "(unit, SegmentData list) http_result"
  | NavTimer
  | ChangeText js_string
  | PressSubmit
  | SubmitResponse "(ErrorBody, unit) http_result"
  | SubmitStatusResponse "(unit, BattleStatus) http_result"
  | PressJudge
  | JudgeResponse "(ErrorBody, unit) http_result"
  | Unmount

fun step :: "event \<Rightarrow> Room \<Rightarrow> Room" where
  "step StatusTick s = (if statusInterval s = None then s else fetchBattleStatus_start s)"
| "step (StatusResponse r) s =
     (if statusPending s = 0 then s
      else fetchBattleStatus_settle r (s \<lparr> statusPending := statusPending s - 1 \<rparr>))"
| "step SegmentsTick s = (if segmentsInterval s = None then s else fetchOpponentSegments_start s)"
| "step (SegmentsResponse r) s =
     (if segmentsPending s = 0 then s
      else fetchOpponentSegments_settle r (s \<lparr> segmentsPending := segmentsPending s - 1 \<rparr>))"
| "step NavTimer s = navTimer_fire s"
| "step (ChangeText t) s =
     (if isMounted s then setState ''textInput'' (\<lambda>r. r \<lparr> textInput := t \<rparr>) s else s)"
| "step PressSubmit s =
     (if isMounted s \<and> submitButtonEnabled s then submitSegment_start s else s)"
| "step (SubmitResponse r) s =
     (if submitPending s = 0 then s
      else submitSegment_settle r (s \<lparr> submitPending := submitPending s - 1 \<rparr>))"
| "step (SubmitStatusResponse r) s =
     (if submitStatusPending s = 0 then s
      else submitStatus_settle r (s \<lparr> submitStatusPending := submitStatusPending s - 1 \<rparr>))"
| "step PressJudge s =
     (if isMounted s \<and> judgeButtonEnabled s then requestJudgment_start s else s)"
| "step (JudgeResponse r) s =
     (if judgePending s = 0 then s
      else requestJudgment_settle r (s \<lparr> judgePending := judgePending s - 1 \<rparr>))"
| "step Unmount s = (if isMounted s then unmount s else s)"

fun run :: "event list \<Rightarrow> Room \<Rightarrow> Room" where
  "run [] s = s"
| "run (e # es) s = run es (step e s)"

definition in_progress :: "Room \<Rightarrow> bool" where
  "in_progress s = (case battleStatus s of None \<Rightarrow> False | Some b \<Rightarrow> status b = js ''in_progress'')"

text \<open>Both players have all three segments marked as submitted.\<close>

definition all_submitted :: "(SegmentKind \<rightharpoonup> bool) \<Rightarrow> bool" where
  "all_submitted m \<longleftrightarrow> m Opening = Some True \<and> m Rebuttal = Some True \<and> m Closing = Some True"

definition both_complete :: "BattleStatus \<Rightarrow> bool" where
  "both_complete b \<longleftrightarrow>
     all_submitted (segments (player1 b))
     \<and> (case player2 b of None \<Rightarrow> False | Some p \<Rightarrow> all_submitted (segments p))"

subsection \<open>Sample battles\<close>

definition three :: "bool \<Rightarrow> bool \<Rightarrow> bool \<Rightarrow> (SegmentKind \<rightharpoonup> bool)" where
  "three a b c = [Opening \<mapsto> a, Rebuttal \<mapsto> b, Closing \<mapsto> c]"

definition sampleBattle :: BattleStatus where
  "sampleBattle =
     \<lparr> battle_id = js ''b1'', status = js ''in_progress'', current_turn = js ''u1'',
       current_segment = Closing,
       topic = \<lparr> topic_id = 1, title = js ''Topic'', description = js ''About'' \<rparr>,
       player1 = \<lparr> p_id = js ''u1'', p_username = js ''alice'', stance = js ''pro'',
                   segments = three True True True \<rparr>,
       player2 = Some \<lparr> p_id = js ''u2'', p_username = js ''bob'', stance = js ''con'',
                        segments = three True True True \<rparr>,
       is_your_turn = False, winner_id = None, judgement = None \<rparr>"

definition openBattle :: BattleStatus where
  "openBattle = sampleBattle \<lparr> status := js ''open'', player2 := None, current_segment := Opening,
     player1 := (player1 sampleBattle) \<lparr> segments := three False False False \<rparr> \<rparr>"

definition judgedBattle :: BattleStatus where
  "judgedBattle = sampleBattle \<lparr> status := js ''completed'', winner_id := Some (js ''u1''),
     judgement := Some (js ''{}'') \<rparr>"

definition sampleRoom :: Room where
  "sampleRoom = mount (js ''b1'') (Some (js ''u1''))"

definition inProgressRoom :: Room where
  "inProgressRoom = run [StatusResponse (HttpOk sampleBattle)] sampleRoom"

definition turnBattle :: BattleStatus where
  "turnBattle = sampleBattle \<lparr> is_your_turn := True,
     player1 := (player1 sampleBattle) \<lparr> segments := three True True False \<rparr> \<rparr>"

definition submittingRoom :: Room where
  "submittingRoom =
     run [StatusResponse (HttpOk turnBattle), ChangeText (js ''my closing''), PressSubmit] sampleRoom"

definition judgingRoom :: Room where
  "judgingRoom = run [StatusResponse (HttpOk sampleBattle), PressJudge] sampleRoom"

definition completedRoom :: Room where
  "completedRoom = run [StatusResponse (HttpOk judgedBattle)] sampleRoom"

section \<open>Battle lobby screen\<close>

text \<open>
  The state of one mounted lobby: the token read from the auth store, the \<open>useState\<close>
  variables, the ref \<open>isMounted.current\<close>, and what the JavaScript runtime holds for the
  screen: the interval timer, the unanswered requests (for a join, the battle it asks
  for), the alerts whose Start button has not been pressed yet, the 100 ms timeouts that
  have not run yet (each with the battle it navigates to, and whether its callback tests
  the mounted flag), and the effects so far. The code never looks inside a battle or a
  topic of the lists, so their types are left open; the battle that is joined and the
  topic that is selected come with the event.
\<close>

record ('b, 't) Lobby =
  lobbyToken :: "js_string option"
  battles :: "'b list"
  topics :: "'t list"
  lobby_isLoading :: bool
  isCreating :: bool
  showTopicModal :: bool
  selectedTopic :: "int option"
  selectedStance :: Stance
  myBattleId :: "js_string option"
  lobby_isMounted :: bool
  lobbyInterval :: "nat option"
  battlesPending :: nat
  topicsPending :: nat
  createPending :: nat
  joinPending :: "js_string list"
  startAlerts :: "js_string list"
  pushTimers :: "(bool \<times> js_string) list"
  lobby_trace :: "effect list"

definition lobby_setState ::
  "string \<Rightarrow> (('b, 't) Lobby \<Rightarrow> ('b, 't) Lobby) \<Rightarrow> ('b, 't) Lobby \<Rightarrow> ('b, 't) Lobby" where
  "lobby_setState name upd l =
     (if lobby_isMounted l then upd l else l) \<lparr> lobby_trace := lobby_trace l @ [StateUpdate name] \<rparr>"

definition lobby_alert :: "string \<Rightarrow> js_string \<Rightarrow> ('b, 't) Lobby \<Rightarrow> ('b, 't) Lobby" where
  "lobby_alert t m l = l \<lparr> lobby_trace := lobby_trace l @ [Ui (Alert t m)] \<rparr>"

definition battlesRequest :: request where
  "battlesRequest = Request ''GET'' ''/battle/available'' []"

definition loadBattles_start :: "('b, 't) Lobby \<Rightarrow> ('b, 't) Lobby" where
  "loadBattles_start l =
     l \<lparr> battlesPending := Suc (battlesPending l),
         lobby_trace := lobby_trace l @ [Fetch battlesRequest] \<rparr>"

definition loadBattles_settle :: "(unit, 'b list) http_result \<Rightarrow> ('b, 't) Lobby \<Rightarrow> ('b, 't) Lobby" where
  "loadBattles_settle response l =
     lobby_setState ''isLoading'' (\<lambda>r. r \<lparr> lobby_isLoading := False \<rparr>)
       (case response of
          HttpOk data \<Rightarrow> lobby_setState ''battles'' (\<lambda>r. r \<lparr> battles := data \<rparr>) l
        | HttpError body \<Rightarrow> l
        | Rejected msg \<Rightarrow>
            l \<lparr> lobby_trace := lobby_trace l @ [ConsoleError ''Failed to load battles:''] \<rparr>)"

definition loadTopics_start :: "('b, 't) Lobby \<Rightarrow> ('b, 't) Lobby" where
  "loadTopics_start l =
     l \<lparr> topicsPending := Suc (topicsPending l),
         lobby_trace := lobby_trace l @ [Fetch (Request ''GET'' ''/topics'' [])] \<rparr>"

definition loadTopics_settle :: "(unit, 't list) http_result \<Rightarrow> ('b, 't) Lobby \<Rightarrow> ('b, 't) Lobby" where
  "loadTopics_settle response l =
     (case response of
        HttpOk data \<Rightarrow> lobby_setState ''topics'' (\<lambda>r. r \<lparr> topics := data \<rparr>) l
      | HttpError body \<Rightarrow> l
      | Rejected msg \<Rightarrow>
          l \<lparr> lobby_trace := lobby_trace l @ [ConsoleError ''Failed to load topics:''] \<rparr>)"

text \<open>
  \<open>createBattle\<close>. \<open>!selectedTopic\<close> holds for no topic and for the topic id 0. The
  timeout it sets after an OK answer tests the mounted flag before it navigates.
\<close>

definition noTopic :: "('b, 't) Lobby \<Rightarrow> bool" where
  "noTopic l \<longleftrightarrow> selectedTopic l = None \<or> selectedTopic l = Some 0"

definition createBattle_start :: "('b, 't) Lobby \<Rightarrow> ('b, 't) Lobby" where
  "createBattle_start l =
     (case selectedTopic l of
        None \<Rightarrow> lobby_alert ''Select Topic'' (js ''Please select a topic first'') l
      | Some i \<Rightarrow>
          if i = 0 then lobby_alert ''Select Topic'' (js ''Please select a topic first'') l
          else
            (let l1 = lobby_setState ''isCreating'' (\<lambda>r. r \<lparr> isCreating := True \<rparr>) l
             in l1 \<lparr> createPending := Suc (createPending l1),
                     lobby_trace := lobby_trace l1 @
                       [Fetch (CreateBattleRequest i (selectedStance l1))] \<rparr>))"

definition createBattle_settle ::
  "(unit, js_string) http_result \<Rightarrow> ('b, 't) Lobby \<Rightarrow> ('b, 't) Lobby" where
  "createBattle_settle response l =
     lobby_setState ''isCreating'' (\<lambda>r. r \<lparr> isCreating := False \<rparr>)
       (case response of
          HttpOk bid \<Rightarrow>
            (let l1 = lobby_setState ''myBattleId'' (\<lambda>r. r \<lparr> myBattleId := Some bid \<rparr>) l;
                 l2 = lobby_setState ''showTopicModal'' (\<lambda>r. r \<lparr> showTopicModal := False \<rparr>) l1
             in l2 \<lparr> pushTimers := pushTimers l2 @ [(True, bid)] \<rparr>)
        | HttpError body \<Rightarrow> lobby_alert ''Error'' (js ''Failed to create battle'') l
        | Rejected msg \<Rightarrow>
            lobby_alert ''Error'' (js ''Failed to create battle'')
              (l \<lparr> lobby_trace := lobby_trace l @ [ConsoleError ''Failed to create battle:''] \<rparr>))"

text \<open>
  \<open>joinBattle\<close>. An OK answer shows an alert with a Start button; pressing it sets a
  timeout that navigates without testing the mounted flag. A non-OK answer shows an
  alert and calls \<open>loadBattles\<close> to refresh the list.
\<close>

definition joinRequest :: "js_string \<Rightarrow> request" where
  "joinRequest bid = Request ''POST'' ''/battle/{battleId}/join'' [(''battleId'', bid)]"

definition joinBattle_start :: "js_string \<Rightarrow> ('b, 't) Lobby \<Rightarrow> ('b, 't) Lobby" where
  "joinBattle_start bid l =
     l \<lparr> joinPending := joinPending l @ [bid],
         lobby_trace := lobby_trace l @ [Fetch (joinRequest bid)] \<rparr>"

definition joinBattle_settle ::
  "js_string \<Rightarrow> (ErrorBody, unit) http_result \<Rightarrow> ('b, 't) Lobby \<Rightarrow> ('b, 't) Lobby" where
  "joinBattle_settle bid response l =
     (case response of
        HttpOk data \<Rightarrow>
          l \<lparr> startAlerts := startAlerts l @ [bid],
              lobby_trace := lobby_trace l @
                [Ui (AlertButton ([0x2705, 0x20] @ js ''Joined Battle!'')
                       (js ''Get ready to debate!'') ''Start'')] \<rparr>
      | HttpError body \<Rightarrow>
          loadBattles_start
            (lobby_alert ''Error'' (or_else (detail body) (js ''Failed to join battle'')) l)
      | Rejected msg \<Rightarrow>
          lobby_alert ''Error'' (js ''Failed to join battle'')
            (l \<lparr> lobby_trace := lobby_trace l @ [ConsoleError ''Failed to join battle:''] \<rparr>))"

definition pressStart :: "js_string \<Rightarrow> ('b, 't) Lobby \<Rightarrow> ('b, 't) Lobby" where
  "pressStart bid l =
     l \<lparr> startAlerts := remove1 bid (startAlerts l), pushTimers := pushTimers l @ [(False, bid)] \<rparr>"

definition pushTimer_fire :: "('b, 't) Lobby \<Rightarrow> ('b, 't) Lobby" where
  "pushTimer_fire l =
     (case pushTimers l of
        [] \<Rightarrow> l
      | (guarded, bid) # rest \<Rightarrow>
          (let l1 = l \<lparr> pushTimers := rest \<rparr>
           in if guarded \<and> \<not> lobby_isMounted l1 then l1
              else l1 \<lparr> lobby_trace := lobby_trace l1 @
                     [Ui (RouterPush ''/battle/room'' [(''battleId'', bid)])] \<rparr>))"

text \<open>
  The state after the first render and its effects. Without a token (\<open>!token\<close>: none, or
  the empty string) the effect only redirects to the login screen and registers nothing.
\<close>

definition lobby_mount :: "js_string option \<Rightarrow> ('b, 't) Lobby" where
  "lobby_mount tok =
     (let l = \<lparr> lobbyToken = tok, battles = [], topics = [], lobby_isLoading = True,
                isCreating = False, showTopicModal = False, selectedTopic = None,
                selectedStance = Pro, myBattleId = None,
                lobby_isMounted = True, lobbyInterval = None,
                battlesPending = 0, topicsPending = 0, createPending = 0, joinPending = [],
                startAlerts = [], pushTimers = [], lobby_trace = [] \<rparr>
      in if tok = None \<or> tok = Some []
         then l \<lparr> lobby_trace := [Ui (RouterReplace ''/auth/login'' [])] \<rparr>
         else (loadTopics_start (loadBattles_start l)) \<lparr> lobbyInterval := Some 3000 \<rparr>)"

definition lobby_unmount :: "('b, 't) Lobby \<Rightarrow> ('b, 't) Lobby" where
  "lobby_unmount l = l \<lparr> lobby_isMounted := False, lobbyInterval := None \<rparr>"

text \<open>
  What can happen to a lobby. The lobby shows its content, and takes presses, while it
  is mounted and not loading; the list can be pulled to refresh and a battle joined
  while the list is not empty; the modal's controls work while the modal is shown. The
  Start button belongs to an alert and outlives the screen.
\<close>

definition lobby_shown :: "('b, 't) Lobby \<Rightarrow> bool" where
  "lobby_shown l \<longleftrightarrow> lobby_isMounted l \<and> \<not> lobby_isLoading l"

datatype ('b, 't) lobby_event =
    LobbyTick
  | BattlesResponse "(unit, 'b list) http_result"
  | TopicsResponse "(unit, 't list) http_result"
  | PullRefresh
  | OpenTopicSelection
  | CloseTopicModal
  | SelectTopic int
  | SelectStance Stance
  | PressCreate
  | CreateResponse "(unit, js_string) http_result"
  | PressJoin js_string
  | JoinResponse js_string "(ErrorBody, unit) http_result"
  | PressStart js_string
  | PushTimer
  | LobbyUnmount

fun lobby_step :: "('b, 't) lobby_event \<Rightarrow> ('b, 't) Lobby \<Rightarrow> ('b, 't) Lobby" where
  "lobby_step LobbyTick l = (if lobbyInterval l = None then l else loadBattles_start l)"
| "lobby_step (BattlesResponse r) l =
     (if battlesPending l = 0 then l
      else loadBattles_settle r (l \<lparr> battlesPending := battlesPending l - 1 \<rparr>))"
| "lobby_step (TopicsResponse r) l =
     (if topicsPending l = 0 then l
      else loadTopics_settle r (l \<lparr> topicsPending := topicsPending l - 1 \<rparr>))"
| "lobby_step PullRefresh l =
     (if lobby_shown l \<and> battles l \<noteq> [] then loadBattles_start l else l)"
| "lobby_step OpenTopicSelection l =
     (if lobby_shown l \<and> \<not> isCreating l
      then lobby_setState ''showTopicModal'' (\<lambda>r. r \<lparr> showTopicModal := True \<rparr>) l else l)"
| "lobby_step CloseTopicModal l =
     (if lobby_shown l \<and> showTopicModal l
      then lobby_setState ''showTopicModal'' (\<lambda>r. r \<lparr> showTopicModal := False \<rparr>) l else l)"
| "lobby_step (SelectTopic i) l =
     (if lobby_shown l \<and> showTopicModal l
      then lobby_setState ''selectedTopic'' (\<lambda>r. r \<lparr> selectedTopic := Some i \<rparr>) l else l)"
| "lobby_step (SelectStance st) l =
     (if lobby_shown l \<and> showTopicModal l
      then lobby_setState ''selectedStance'' (\<lambda>r. r \<lparr> selectedStance := st \<rparr>) l else l)"
| "lobby_step PressCreate l =
     (if lobby_shown l \<and> showTopicModal l \<and> \<not> noTopic l then createBattle_start l else l)"
| "lobby_step (CreateResponse r) l =
     (if createPending l = 0 then l
      else createBattle_settle r (l \<lparr> createPending := createPending l - 1 \<rparr>))"
| "lobby_step (PressJoin bid) l =
     (if lobby_shown l \<and> battles l \<noteq> [] then joinBattle_start bid l else l)"
| "lobby_step (JoinResponse bid r) l =
     (if bid \<in> set (joinPending l)
      then joinBattle_settle bid r (l \<lparr> joinPending := remove1 bid (joinPending l) \<rparr>) else l)"
| "lobby_step (PressStart bid) l = (if bid \<in> set (startAlerts l) then pressStart bid l else l)"
| "lobby_step PushTimer l = pushTimer_fire l"
| "lobby_step LobbyUnmount l = (if lobby_isMounted l then lobby_unmount l else l)"

fun lobby_run :: "('b, 't) lobby_event list \<Rightarrow> ('b, 't) Lobby \<Rightarrow> ('b, 't) Lobby" where
  "lobby_run [] l = l"
| "lobby_run (e # es) l = lobby_run es (lobby_step e l)"

definition sampleLobby :: "(nat, nat) Lobby" where
  "sampleLobby = lobby_mount (Some (js ''tok-1''))"

definition joiningLobby :: "(nat, nat) Lobby" where
  "joiningLobby = lobby_run [BattlesResponse (HttpOk [7]), PressJoin (js ''b1'')] sampleLobby"

section \<open>Properties of the screens\<close>

text \<open>A request that failed: it was rejected, or answered with a non-OK response.\<close>

definition failed :: "('e, 'a) http_result \<Rightarrow> bool" where
  "failed r = (case r of HttpOk data \<Rightarrow> False | HttpError body \<Rightarrow> True | Rejected msg \<Rightarrow> True)"

text \<open>What a polling function writes to the console for an answer.\<close>

definition failure_log :: "string \<Rightarrow> ('e, 'a) http_result \<Rightarrow> effect list" where
  "failure_log m r =
     (case r of HttpOk data \<Rightarrow> [] | HttpError body \<Rightarrow> [] | Rejected msg \<Rightarrow> [ConsoleError m])"

text \<open>No stored transcript belongs to the current user.\<close>

definition no_own_segments :: "Room \<Rightarrow> bool" where
  "no_own_segments s \<longleftrightarrow>
     list_all (\<lambda>seg. Some (player_id seg) \<noteq> currentUserId s) (opponentTranscripts s)"

text \<open>The state variables of the room, and of the lobby, that a setter can change.\<close>

definition same_state :: "Room \<Rightarrow> Room \<Rightarrow> bool" where
  "same_state s s' \<longleftrightarrow>
     textInput s' = textInput s \<and> battleStatus s' = battleStatus s
     \<and> opponentTranscripts s' = opponentTranscripts s \<and> isSubmitting s' = isSubmitting s
     \<and> isJudging s' = isJudging s \<and> loading s' = loading s"

definition lobby_same_state :: "('b, 't) Lobby \<Rightarrow> ('b, 't) Lobby \<Rightarrow> bool" where
  "lobby_same_state l l' \<longleftrightarrow>
     battles l' = battles l \<and> topics l' = topics l \<and> lobby_isLoading l' = lobby_isLoading l
     \<and> isCreating l' = isCreating l \<and> showTopicModal l' = showTopicModal l
     \<and> selectedTopic l' = selectedTopic l \<and> selectedStance l' = selectedStance l
     \<and> myBattleId l' = myBattleId l"

text \<open>The requests and the alerts and navigations among the effects that were added.\<close>

fun ui_of :: "effect list \<Rightarrow> ui_effect list" where
  "ui_of [] = []"
| "ui_of (Ui u # es) = u # ui_of es"
| "ui_of (e # es) = ui_of es"

definition judge_requests :: "Room \<Rightarrow> request list" where
  "judge_requests s = filter (\<lambda>r. r = judgeRequest s) (requests_of (trace s))"

definition mineSegment :: SegmentData where
  "mineSegment = \<lparr> kind = Opening, transcript = js ''mine'', player_id = js ''u1'' \<rparr>"

definition theirSegment :: SegmentData where
  "theirSegment = \<lparr> kind = Opening, transcript = js ''theirs'', player_id = js ''u2'' \<rparr>"

text \<open>
  The requests to the endpoints that the intervals poll: the status and the segments of
  the battle in the room, the available battles in the lobby.
\<close>

definition is_poll_request :: "request \<Rightarrow> bool" where
  "is_poll_request r =
     (case r of
        Request m p ps \<Rightarrow> p = ''/battle/{battleId}/status'' \<or> p = ''/battle/{battleId}/segments''
      | CreateBattleRequest i st \<Rightarrow> False)"

definition poll_requests :: "Room \<Rightarrow> request list" where
  "poll_requests s = filter is_poll_request (requests_of (trace s))"

definition battles_requests :: "('b, 't) Lobby \<Rightarrow> request list" where
  "battles_requests l = filter (\<lambda>r. r = battlesRequest) (requests_of (lobby_trace l))"

text \<open>
  What stays true of a screen once it is unmounted, relative to a state before: the
  intervals are cleared, so that a tick does nothing; the room does not navigate to the
  results; no state variable changes; and a request to a polled endpoint is sent only
  by the answer to a request that was in flight: in the room at most one for each
  segment submission whose answer was awaited, in the lobby at most one for each join
  whose answer was awaited.
\<close>

definition unmounted_since :: "Room \<Rightarrow> Room \<Rightarrow> bool" where
  "unmounted_since s u \<longleftrightarrow>
     \<not> isMounted u \<and> statusInterval u = None \<and> segmentsInterval u = None
     \<and> step StatusTick u = u \<and> step SegmentsTick u = u
     \<and> navigations_of (trace u) = navigations_of (trace s)
     \<and> same_state s u
     \<and> length (poll_requests u) + submitPending u \<le> length (poll_requests s) + submitPending s"

definition lobby_unmounted_since :: "('b, 't) Lobby \<Rightarrow> ('b, 't) Lobby \<Rightarrow> bool" where
  "lobby_unmounted_since l v \<longleftrightarrow>
     \<not> lobby_isMounted v \<and> lobbyInterval v = None \<and> lobby_step LobbyTick v = v
     \<and> lobby_same_state l v
     \<and> length (battles_requests v) + length (joinPending v)
         \<le> length (battles_requests l) + length (joinPending l)"

section \<open>JavaScript strings: results\<close>

text \<open>Literals of the source are told apart by \<open>js\<close>.\<close>

lemma of_char_bound: "(of_char c :: nat) < 65536"
proof -
  have "(of_char c :: nat) mod 256 < 256" by (rule mod_less_divisor) simp
  then have "(of_char c :: nat) < 256" by (simp only: of_char_mod_256)
  then show ?thesis by linarith
qed

lemma code_unit_of_char_inj:
  "(of_nat (of_char c) :: code_unit) = of_nat (of_char d) \<longleftrightarrow> c = d"
proof
  assume "(of_nat (of_char c) :: code_unit) = of_nat (of_char d)"
  then have "unat (of_nat (of_char c) :: code_unit) = unat (of_nat (of_char d) :: code_unit)"
    by simp
  then have "(of_char c :: nat) = of_char d"
    using of_char_bound [of c] of_char_bound [of d] by (simp add: unat_of_nat)
  then show "c = d" by simp
qed simp

lemma js_eq_iff [simp]: "js a = js b \<longleftrightarrow> a = b"
  unfolding js_def
  by (rule inj_map_eq_map) (simp add: inj_on_def code_unit_of_char_inj)

lemma js_empty_iff [simp]: "js a = [] \<longleftrightarrow> a = []"
  by (simp add: js_def)

text \<open>A literal of the source holds no surrogate, so it is well formed.\<close>

lemma of_char_small: "(of_char c :: nat) < 256"
proof -
  have "(of_char c :: nat) mod 256 < 256" by (rule mod_less_divisor) simp
  then show ?thesis by (simp only: of_char_mod_256)
qed

lemma char_not_surrogate:
  "\<not> isHighSurrogate (of_nat (of_char c))" "\<not> isLowSurrogate (of_nat (of_char c))"
proof -
  have a: "(of_char c :: nat) < 256" by (rule of_char_small)
  then have "(of_char c :: nat) < 65536" by linarith
  then have b: "(of_char c :: nat) mod 65536 = of_char c" by (rule mod_less)
  from a have c: "\<not> 55296 \<le> (of_char c :: nat)" "\<not> 56320 \<le> (of_char c :: nat)"
    by linarith+
  from b c show "\<not> isHighSurrogate (of_nat (of_char c))"
    "\<not> isLowSurrogate (of_nat (of_char c))"
    by (simp_all add: isHighSurrogate_def isLowSurrogate_def word_le_nat_alt unat_of_nat)
qed

lemma wellFormed_no_surrogates:
  "list_all (\<lambda>c. \<not> isHighSurrogate c \<and> \<not> isLowSurrogate c) s \<Longrightarrow> wellFormed s"
  by (induction s rule: wellFormed.induct) simp_all

lemma wellFormed_js [simp]: "wellFormed (js s)"
  by (rule wellFormed_no_surrogates) (simp add: js_def list_all_iff char_not_surrogate)

lemma lone_surrogate [simp]:
  "isHighSurrogate 0xD800" "\<not> isLowSurrogate 0xD800" "\<not> wellFormed [0xD800]"
  "\<not> blank [0xD800]"
  by (simp_all add: isHighSurrogate_def isLowSurrogate_def blank_def isWhiteSpace_def)

section \<open>Theme store: results\<close>

text \<open>
  C8. The initial store satisfies \<open>theme = (isDark ? darkTheme : lightTheme)\<close>; both
  operations, \<open>toggleTheme\<close> and \<open>setTheme\<close>, lead to a state that satisfies it; and on a
  state that satisfies it, two applications of \<open>toggleTheme\<close> give back the same
  \<open>(isDark, theme)\<close>.
\<close>

theorem theme_store_invariant_and_involution:
  "theme_consistent initialThemeState
   \<and> theme_consistent (toggleTheme state)
   \<and> theme_consistent (setTheme d state)
   \<and> (theme_consistent state \<longrightarrow> toggleTheme (toggleTheme state) = state)"
  by (simp add: theme_consistent_def initialThemeState_def toggleTheme_def setTheme_def)

theorem theme_store_invariant_and_involution_witness:
  "theme_consistent (setTheme True initialThemeState)
   \<and> toggleTheme (toggleTheme (setTheme True initialThemeState)) = setTheme True initialThemeState
   \<and> isDark (toggleTheme (setTheme True initialThemeState)) = False
   \<and> theme (toggleTheme (setTheme True initialThemeState)) = lightTheme"
  using theme_store_invariant_and_involution [where state = "setTheme True initialThemeState" and d = True]
  by (simp add: toggleTheme_def setTheme_def initialThemeState_def)

section \<open>Register screen: results\<close>

lemma trim_empty_iff: "trim s = [] \<longleftrightarrow> blank s"
proof
  assume "trim s = []"
  then have a: "\<forall>x \<in> set (dropWhile isWhiteSpace s). isWhiteSpace x"
    by (simp add: trim_def dropWhile_eq_Nil_conv)
  have "dropWhile isWhiteSpace s = []"
  proof (cases "dropWhile isWhiteSpace s")
    case Nil then show ?thesis .
  next
    case (Cons x xs)
    then have "\<not> isWhiteSpace x" using hd_dropWhile [of isWhiteSpace s] by simp
    with a Cons show ?thesis by simp
  qed
  then show "blank s" by (simp add: blank_def dropWhile_eq_Nil_conv list_all_iff)
next
  assume "blank s"
  then have "dropWhile isWhiteSpace s = []"
    by (simp add: blank_def dropWhile_eq_Nil_conv list_all_iff)
  then show "trim s = []" by (simp only: trim_def rev.simps dropWhile.simps)
qed

lemma blank_confirm:
  assumes "blank c" and "\<not> blank p" shows "p \<noteq> c"
  using assms by auto

text \<open>
  C10. \<open>handleRegister\<close> sends nothing and shows exactly one alert, leaving the auth
  store as it was, whenever a field (username, email, password or its confirmation) is
  blank, the two passwords differ, the password has fewer than 6 code units, or the email
  does not match the pattern. In every other case it sends the one request
  \<open>POST /auth/register\<close> with the username, email and password of the form, unless one
  of the three is not well formed, where \<open>encodeURIComponent\<close> throws before the
  request: then it sends nothing either. So a request is sent only for a form that passes
  all four checks.
\<close>

theorem handleRegister_validation:
  "handleRegister scr response w = (effects, scr', w') \<Longrightarrow>
   (if blank (username scr) \<or> blank (email scr) \<or> blank (password scr)
       \<or> blank (confirmPassword scr)
       \<or> password scr \<noteq> confirmPassword scr
       \<or> length (password scr) < 6
       \<or> \<not> regex_test emailRegex (email scr)
    then w' = w \<and> requests w' = requests w \<and> length effects = 1 \<and> list_all is_alert effects
    else requests w' = requests w @
           (if wellFormed (username scr) \<and> wellFormed (email scr) \<and> wellFormed (password scr)
            then [register_request scr] else []))"
proof (cases "blank (confirmPassword scr) \<and> \<not> blank (password scr)")
  case True
  assume h: "handleRegister scr response w = (effects, scr', w')"
  from True have ne: "password scr \<noteq> confirmPassword scr" by (auto simp: blank_confirm)
  with True h show ?thesis
    by (auto simp: handleRegister_def trim_empty_iff is_alert_def split: if_splits)
next
  case False
  assume h: "handleRegister scr response w = (effects, scr', w')"
  with False show ?thesis
    by (auto simp: handleRegister_def trim_empty_iff is_alert_def register_def register_request_def
          Let_def split: if_splits http_result.splits)
qed

text \<open>The pattern on some addresses.\<close>

lemma emailRegex_examples:
  "regex_test emailRegex (js ''a@b.c'')" "regex_test emailRegex (js ''a.b@c.d.e'')"
  "\<not> regex_test emailRegex (js ''alice@example'')" "\<not> regex_test emailRegex (js ''a@@b.c'')"
  "\<not> regex_test emailRegex (js ''a b@c.d'')" "\<not> regex_test emailRegex (js ''@b.c'')"
  "\<not> regex_test emailRegex (js ''a@.c'')" "\<not> regex_test emailRegex (js ''a@b.'')"
  "\<not> regex_test emailRegex []"
  by code_simp+

lemma sample_form_fields:
  "\<not> blank (js ''alice'')" "\<not> blank (js ''alice@example.com'')" "\<not> blank (js ''secret1'')"
  "\<not> blank (js ''secret2'')" "js ''secret1'' \<noteq> js ''secret2''" "length (js ''secret1'') = 7"
  "regex_test emailRegex (js ''alice@example.com'')"
  by code_simp+

theorem handleRegister_validation_witness:
  "requests (snd (snd (handleRegister sampleForm (Rejected []) initialAuthWorld)))
     = [register_request sampleForm]
   \<and> snd (snd (handleRegister (sampleForm \<lparr> confirmPassword := js ''secret2'' \<rparr>)
                 (Rejected []) initialAuthWorld)) = initialAuthWorld
   \<and> length (fst (handleRegister (sampleForm \<lparr> confirmPassword := js ''secret2'' \<rparr>)
                 (Rejected []) initialAuthWorld)) = 1
   \<and> requests (snd (snd (handleRegister (sampleForm \<lparr> username := [0xD800] \<rparr>)
                 (HttpOk sampleAuthData) initialAuthWorld))) = []"
proof -
  let ?h1 = "handleRegister sampleForm (Rejected []) initialAuthWorld"
  let ?h2 = "handleRegister (sampleForm \<lparr> confirmPassword := js ''secret2'' \<rparr>)
               (Rejected []) initialAuthWorld"
  let ?h3 = "handleRegister (sampleForm \<lparr> username := [0xD800] \<rparr>)
               (HttpOk sampleAuthData) initialAuthWorld"
  have a: "requests (snd (snd ?h1)) = [register_request sampleForm]"
    using handleRegister_validation [of sampleForm "Rejected []" initialAuthWorld
        "fst ?h1" "fst (snd ?h1)" "snd (snd ?h1)"]
    by (simp add: sampleForm_def sample_form_fields initialAuthWorld_def)
  have b: "snd (snd ?h2) = initialAuthWorld
     \<and> length (fst ?h2) = 1"
    using handleRegister_validation [of "sampleForm \<lparr> confirmPassword := js ''secret2'' \<rparr>"
        "Rejected []" initialAuthWorld "fst ?h2" "fst (snd ?h2)" "snd (snd ?h2)"]
    by (simp add: sampleForm_def sample_form_fields)
  have c: "requests (snd (snd ?h3)) = []"
    using handleRegister_validation [of "sampleForm \<lparr> username := [0xD800] \<rparr>"
        "HttpOk sampleAuthData" initialAuthWorld "fst ?h3" "fst (snd ?h3)" "snd (snd ?h3)"]
    by (simp add: sampleForm_def sample_form_fields initialAuthWorld_def)
  from a b c show ?thesis by simp
qed

section \<open>Auth store: results\<close>





section \<open>Battle room and lobby: results\<close>

lemmas room_defs =
  setState_def fetchBattleStatus_start_def fetchOpponentSegments_start_def segmentsEffect_def
  fetchBattleStatus_settle_def navTimer_fire_def fetchOpponentSegments_settle_def alert_def
  requestJudgment_start_def requestJudgment_settle_def submitSegment_start_def
  submitSegment_settle_def submitStatus_settle_def unmount_def Let_def

lemmas lobby_defs =
  lobby_setState_def lobby_alert_def loadBattles_start_def loadBattles_settle_def
  loadTopics_start_def loadTopics_settle_def createBattle_start_def createBattle_settle_def
  joinBattle_start_def joinBattle_settle_def pressStart_def pushTimer_fire_def lobby_shown_def
  lobby_unmount_def Let_def

lemma run_append: "run (xs @ ys) s = run ys (run xs s)"
  by (induction xs arbitrary: s) simp_all

lemma run_invariant:
  assumes "P s" and "\<And>e s. P s \<Longrightarrow> P (step e s)"
  shows "P (run evs s)"
  using assms(1)
proof (induction evs arbitrary: s)
  case Nil
  then show ?case by simp
next
  case (Cons e evs)
  then show ?case using assms(2) by simp
qed

lemma lobby_run_invariant:
  assumes "P l" and "\<And>e l. P l \<Longrightarrow> P (lobby_step e l)"
  shows "P (lobby_run evs l)"
  using assms(1)
proof (induction evs arbitrary: l)
  case Nil
  then show ?case by simp
next
  case (Cons e evs)
  then show ?case using assms(2) by simp
qed

lemma requests_of_append: "requests_of (xs @ ys) = requests_of xs @ requests_of ys"
  by (induction xs rule: requests_of.induct) simp_all

lemma navigations_of_append: "navigations_of (xs @ ys) = navigations_of xs @ navigations_of ys"
  by (induction xs rule: navigations_of.induct) simp_all

lemma ui_of_append: "ui_of (xs @ ys) = ui_of xs @ ui_of ys"
  by (induction xs rule: ui_of.induct) simp_all

lemma state_updates_of_append:
  "state_updates_of (xs @ ys) = state_updates_of xs @ state_updates_of ys"
  by (induction xs rule: state_updates_of.induct) simp_all

lemma console_of_append: "console_of (xs @ ys) = console_of xs @ console_of ys"
  by (induction xs rule: console_of.induct) simp_all

lemmas of_append =
  requests_of_append navigations_of_append ui_of_append state_updates_of_append console_of_append

lemmas sample_defs =
  sampleRoom_def mount_def sampleBattle_def openBattle_def judgedBattle_def three_def
  mineSegment_def theirSegment_def

subsection \<open>Opponent transcripts\<close>

lemma currentUserId_step: "currentUserId (step e s) = currentUserId s"
  by (cases e) (simp_all add: room_defs split: http_result.splits option.splits list.splits)

lemma no_own_segments_step: "no_own_segments s \<Longrightarrow> no_own_segments (step e s)"
  by (cases e)
    (auto simp: no_own_segments_def room_defs list_all_iff
          split: http_result.splits option.splits list.splits)

text \<open>
  C9. In every state the battle room reaches from its mount, whatever the timers, the
  server and the user do, no segment of \<open>opponentTranscripts\<close> has the current user's
  id as its \<open>player_id\<close>.
\<close>

theorem opponentTranscripts_never_own:
  "no_own_segments (run evs (mount bid uid))"
proof (rule run_invariant)
  show "no_own_segments (mount bid uid)"
    by (simp add: no_own_segments_def mount_def room_defs)
next
  fix e and s :: Room
  assume "no_own_segments s"
  then show "no_own_segments (step e s)" by (rule no_own_segments_step)
qed

theorem opponentTranscripts_never_own_witness:
  "opponentTranscripts
     (run [StatusResponse (HttpOk sampleBattle), SegmentsResponse (HttpOk [mineSegment, theirSegment])]
        (mount (js ''b1'') (Some (js ''u1''))))
     = [theirSegment]
   \<and> no_own_segments
     (run [StatusResponse (HttpOk sampleBattle), SegmentsResponse (HttpOk [mineSegment, theirSegment])]
        (mount (js ''b1'') (Some (js ''u1''))))"
  using opponentTranscripts_never_own
    [of "[StatusResponse (HttpOk sampleBattle), SegmentsResponse (HttpOk [mineSegment, theirSegment])]"
        "js ''b1''" "Some (js ''u1'')"]
  by (simp add: sample_defs room_defs)

subsection \<open>The judge button\<close>

lemma count_three: "length (filter (\<lambda>v. v) (object_values m)) = 3 \<longleftrightarrow> all_submitted m"
  by (auto simp: object_values_def List.map_filter_def all_submitted_def split: option.splits)

lemma allSegmentsComplete_iff: "allSegmentsComplete uid b \<longleftrightarrow> both_complete b"
  by (auto simp: allSegmentsComplete_def count_three both_complete_def mySegments_def
        opponentSegments_def player2_segments_def all_submitted_def split: option.splits)

lemma loaded_step:
  "(battleStatus s \<noteq> None \<longrightarrow> \<not> loading s) \<Longrightarrow>
   (battleStatus (step e s) \<noteq> None \<longrightarrow> \<not> loading (step e s))"
  by (cases e) (auto simp: room_defs split: http_result.splits option.splits list.splits)

lemma loaded_run:
  "battleStatus (run evs (mount bid uid)) \<noteq> None \<longrightarrow> \<not> loading (run evs (mount bid uid))"
proof (rule run_invariant)
  show "battleStatus (mount bid uid) \<noteq> None \<longrightarrow> \<not> loading (mount bid uid)"
    by (simp add: mount_def room_defs)
next
  fix e and s :: Room
  assume "battleStatus s \<noteq> None \<longrightarrow> \<not> loading s"
  then show "battleStatus (step e s) \<noteq> None \<longrightarrow> \<not> loading (step e s)"
    by (rule loaded_step)
qed

text \<open>
  C3. In every state the room reaches, the Request AI Judgment button is rendered exactly
  when a battle status is stored in which both players' segment records mark opening,
  rebuttal and closing as submitted, and the segment input is rendered exactly when a
  battle status is stored in which they do not.
\<close>

theorem judge_button_iff_all_segments:
  "judgeButtonShown (run evs (mount bid uid))
     = (case battleStatus (run evs (mount bid uid)) of None \<Rightarrow> False | Some b \<Rightarrow> both_complete b)
   \<and> inputCardShown (run evs (mount bid uid))
     = (case battleStatus (run evs (mount bid uid)) of None \<Rightarrow> False | Some b \<Rightarrow> \<not> both_complete b)"
  using loaded_run [of evs bid uid]
  by (auto simp: judgeButtonShown_def inputCardShown_def render_def allSegmentsComplete_iff
        split: option.splits)

theorem judge_button_iff_all_segments_witness:
  "judgeButtonShown (run [StatusResponse (HttpOk sampleBattle)] (mount (js ''b1'') (Some (js ''u1''))))
   \<and> \<not> inputCardShown (run [StatusResponse (HttpOk sampleBattle)] (mount (js ''b1'') (Some (js ''u1''))))
   \<and> \<not> judgeButtonShown (run [StatusResponse (HttpOk openBattle)] (mount (js ''b1'') (Some (js ''u1''))))
   \<and> inputCardShown (run [StatusResponse (HttpOk openBattle)] (mount (js ''b1'') (Some (js ''u1''))))"
proof -
  have a: "battleStatus (run [StatusResponse (HttpOk sampleBattle)] (mount (js ''b1'') (Some (js ''u1''))))
      = Some sampleBattle"
    "battleStatus (run [StatusResponse (HttpOk openBattle)] (mount (js ''b1'') (Some (js ''u1''))))
      = Some openBattle"
    by (simp_all add: sample_defs room_defs)
  have b: "both_complete sampleBattle" "\<not> both_complete openBattle"
    by (simp_all add: both_complete_def all_submitted_def sampleBattle_def openBattle_def three_def)
  from a b
    judge_button_iff_all_segments [of "[StatusResponse (HttpOk sampleBattle)]" "js ''b1''" "Some (js ''u1'')"]
    judge_button_iff_all_segments [of "[StatusResponse (HttpOk openBattle)]" "js ''b1''" "Some (js ''u1'')"]
  show ?thesis by simp
qed

subsection \<open>Failed polls\<close>

text \<open>
  C6, as the code has it. When the answer to a status poll of the room, or to a battles
  poll of the lobby, is a failure (the request was rejected, or the response is not OK),
  the stored \<open>battleStatus\<close>, respectively \<open>battles\<close>, and the interval timer stay as
  they were, so the next tick polls again. The only effects are: for a rejected request
  one \<open>console.error\<close>, for a non-OK response nothing; and then the setter that ends
  the loading state.
\<close>

theorem failed_poll_keeps_state:
  "(failed r \<and> 0 < statusPending s \<longrightarrow>
      battleStatus (step (StatusResponse r) s) = battleStatus s
      \<and> statusInterval (step (StatusResponse r) s) = statusInterval s
      \<and> navTimers (step (StatusResponse r) s) = navTimers s
      \<and> trace (step (StatusResponse r) s)
          = trace s @ failure_log ''Failed to fetch battle status:'' r @ [StateUpdate ''loading''])
   \<and> (failed r' \<and> 0 < battlesPending l \<longrightarrow>
      battles (lobby_step (BattlesResponse r') l) = battles l
      \<and> lobbyInterval (lobby_step (BattlesResponse r') l) = lobbyInterval l
      \<and> lobby_trace (lobby_step (BattlesResponse r') l)
          = lobby_trace l @ failure_log ''Failed to load battles:'' r' @ [StateUpdate ''isLoading''])"
proof -
  have room: "failed r \<and> 0 < statusPending s \<longrightarrow>
      battleStatus (step (StatusResponse r) s) = battleStatus s
      \<and> statusInterval (step (StatusResponse r) s) = statusInterval s
      \<and> navTimers (step (StatusResponse r) s) = navTimers s
      \<and> trace (step (StatusResponse r) s)
          = trace s @ failure_log ''Failed to fetch battle status:'' r @ [StateUpdate ''loading'']"
    by (cases r) (simp_all add: failed_def failure_log_def room_defs)
  have lobby: "failed r' \<and> 0 < battlesPending l \<longrightarrow>
      battles (lobby_step (BattlesResponse r') l) = battles l
      \<and> lobbyInterval (lobby_step (BattlesResponse r') l) = lobbyInterval l
      \<and> lobby_trace (lobby_step (BattlesResponse r') l)
          = lobby_trace l @ failure_log ''Failed to load battles:'' r' @ [StateUpdate ''isLoading'']"
    by (cases r') (simp_all add: failed_def failure_log_def lobby_defs)
  from room lobby show ?thesis by (rule conjI)
qed

theorem failed_poll_keeps_state_witness:
  "battleStatus (step (StatusResponse (Rejected (js ''Network request failed'')))
       (run [StatusResponse (HttpOk sampleBattle), StatusTick] sampleRoom))
     = Some sampleBattle
   \<and> console_of (trace (step (StatusResponse (Rejected (js ''Network request failed'')))
       (run [StatusResponse (HttpOk sampleBattle), StatusTick] sampleRoom)))
     = [''Failed to fetch battle status:'']
   \<and> battles (lobby_step (BattlesResponse (HttpError ()))
       (lobby_run [BattlesResponse (HttpOk [7]), LobbyTick] sampleLobby)) = [7]"
proof -
  let ?s = "run [StatusResponse (HttpOk sampleBattle), StatusTick] sampleRoom"
  let ?l = "lobby_run [BattlesResponse (HttpOk [7]), LobbyTick] sampleLobby"
  have s: "0 < statusPending ?s" "battleStatus ?s = Some sampleBattle" "console_of (trace ?s) = []"
    by (simp_all add: sample_defs room_defs statusRequest_def segmentsRequest_def)
  have l: "0 < battlesPending ?l" "battles ?l = [7]"
    by (simp_all add: sampleLobby_def lobby_mount_def lobby_defs)
  from s l
    failed_poll_keeps_state [of "Rejected (js ''Network request failed'')" ?s "HttpError ()" ?l]
  show ?thesis
    by (simp add: failed_def failure_log_def of_append)
qed

text \<open>
  C6 as stated fails for a non-OK response: nothing is written to the console, in the
  room and in the lobby alike.
\<close>

theorem non_ok_poll_not_logged_counterexample:
  "failed (HttpError () :: (unit, BattleStatus) http_result)
   \<and> 0 < statusPending sampleRoom
   \<and> console_of (trace (step (StatusResponse (HttpError ())) sampleRoom)) = []
   \<and> 0 < battlesPending sampleLobby
   \<and> console_of (lobby_trace (lobby_step (BattlesResponse (HttpError ())) sampleLobby)) = []"
  by (simp add: failed_def sample_defs room_defs sampleLobby_def lobby_mount_def lobby_defs
        statusRequest_def)

subsection \<open>Polling intervals\<close>

lemma intervals_step:
  assumes "statusInterval s = (if isMounted s then Some 2000 else None)"
    and "segmentsInterval s = (if isMounted s \<and> in_progress s then Some 3000 else None)"
  shows "statusInterval (step e s) = (if isMounted (step e s) then Some 2000 else None)
    \<and> segmentsInterval (step e s)
        = (if isMounted (step e s) \<and> in_progress (step e s) then Some 3000 else None)"
  using assms
  by (cases e)
    (auto simp: in_progress_def room_defs split: http_result.splits option.splits list.splits)

lemma intervals_run:
  "statusInterval (run evs (mount bid uid))
      = (if isMounted (run evs (mount bid uid)) then Some 2000 else None)
   \<and> segmentsInterval (run evs (mount bid uid))
      = (if isMounted (run evs (mount bid uid)) \<and> in_progress (run evs (mount bid uid))
         then Some 3000 else None)"
proof (rule run_invariant)
  show "statusInterval (mount bid uid) = (if isMounted (mount bid uid) then Some 2000 else None)
    \<and> segmentsInterval (mount bid uid)
        = (if isMounted (mount bid uid) \<and> in_progress (mount bid uid) then Some 3000 else None)"
    by (simp add: mount_def in_progress_def room_defs)
next
  fix e and s :: Room
  assume "statusInterval s = (if isMounted s then Some 2000 else None)
    \<and> segmentsInterval s = (if isMounted s \<and> in_progress s then Some 3000 else None)"
  then show "statusInterval (step e s) = (if isMounted (step e s) then Some 2000 else None)
    \<and> segmentsInterval (step e s)
        = (if isMounted (step e s) \<and> in_progress (step e s) then Some 3000 else None)"
    using intervals_step [of s e] by blast
qed

text \<open>
  C4, as the code has it. In every state the room reaches: the status interval is
  registered with period 2000 ms exactly while the screen is mounted, whatever the status
  of the battle, and each of its ticks sends one status request; the segments interval is
  registered with period 3000 ms exactly while the screen is mounted and the stored
  status is \<open>in_progress\<close>, and each of its ticks sends one segments request. Besides,
  each \<open>in_progress\<close> status answer that a mounted room stores sends a segments
  request at once (the effect that registers the segments interval runs again).
\<close>

theorem polling_intervals:
  "s = run evs (mount bid uid) \<Longrightarrow>
   statusInterval s = (if isMounted s then Some 2000 else None)
   \<and> segmentsInterval s = (if isMounted s \<and> in_progress s then Some 3000 else None)
   \<and> requests_of (trace (step StatusTick s))
       = requests_of (trace s) @ (if isMounted s then [statusRequest s] else [])
   \<and> requests_of (trace (step SegmentsTick s))
       = requests_of (trace s) @ (if isMounted s \<and> in_progress s then [segmentsRequest s] else [])
   \<and> requests_of (trace (fetchBattleStatus_settle (HttpOk data) s))
       = requests_of (trace s) @
           (if isMounted s \<and> status data = js ''in_progress'' then [segmentsRequest s] else [])"
proof -
  assume s: "s = run evs (mount bid uid)"
  have a: "statusInterval s = (if isMounted s then Some 2000 else None)
    \<and> segmentsInterval s = (if isMounted s \<and> in_progress s then Some 3000 else None)"
    using intervals_run [of evs bid uid] s by simp
  from a have b: "requests_of (trace (step StatusTick s))
       = requests_of (trace s) @ (if isMounted s then [statusRequest s] else [])"
    "requests_of (trace (step SegmentsTick s))
       = requests_of (trace s) @ (if isMounted s \<and> in_progress s then [segmentsRequest s] else [])"
    by (simp_all add: room_defs of_append)
  have c: "requests_of (trace (fetchBattleStatus_settle (HttpOk data) s))
       = requests_of (trace s) @
           (if isMounted s \<and> status data = js ''in_progress'' then [segmentsRequest s] else [])"
    by (simp add: room_defs of_append segmentsRequest_def split: option.splits)
  from a b c show ?thesis by simp
qed

theorem polling_intervals_witness:
  "isMounted inProgressRoom \<and> in_progress inProgressRoom
   \<and> statusInterval inProgressRoom = Some 2000 \<and> segmentsInterval inProgressRoom = Some 3000
   \<and> isMounted completedRoom \<and> \<not> in_progress completedRoom
   \<and> statusInterval completedRoom = Some 2000 \<and> segmentsInterval completedRoom = None"
proof -
  have r1: "inProgressRoom
      = run [StatusResponse (HttpOk sampleBattle)] (mount (js ''b1'') (Some (js ''u1'')))"
    by (simp only: inProgressRoom_def sampleRoom_def)
  have r2: "completedRoom
      = run [StatusResponse (HttpOk judgedBattle)] (mount (js ''b1'') (Some (js ''u1'')))"
    by (simp only: completedRoom_def sampleRoom_def)
  have a: "isMounted inProgressRoom" "in_progress inProgressRoom"
    "isMounted completedRoom" "\<not> in_progress completedRoom"
    by (simp_all add: inProgressRoom_def completedRoom_def sample_defs room_defs in_progress_def)
  have b: "statusInterval inProgressRoom = (if isMounted inProgressRoom then Some 2000 else None)"
    "segmentsInterval inProgressRoom
      = (if isMounted inProgressRoom \<and> in_progress inProgressRoom then Some 3000 else None)"
    using polling_intervals [OF r1, where data = sampleBattle] by blast+
  have c: "statusInterval completedRoom = (if isMounted completedRoom then Some 2000 else None)"
    "segmentsInterval completedRoom
      = (if isMounted completedRoom \<and> in_progress completedRoom then Some 3000 else None)"
    using polling_intervals [OF r2, where data = sampleBattle] by blast+
  from a b c show ?thesis by simp
qed

text \<open>
  C4 as stated fails for the status endpoint: it is polled while the battle is still
  \<open>open\<close> (waiting for an opponent), and after it is \<open>completed\<close>.
\<close>

theorem status_polled_when_not_in_progress_counterexample:
  "\<not> in_progress (run [StatusResponse (HttpOk openBattle)] sampleRoom)
   \<and> statusInterval (run [StatusResponse (HttpOk openBattle)] sampleRoom) = Some 2000
   \<and> requests_of (trace (run [StatusResponse (HttpOk openBattle), StatusTick] sampleRoom))
     = requests_of (trace (run [StatusResponse (HttpOk openBattle)] sampleRoom))
         @ [statusRequest sampleRoom]
   \<and> \<not> in_progress (run [StatusResponse (HttpOk judgedBattle)] sampleRoom)
   \<and> requests_of (trace (run [StatusResponse (HttpOk judgedBattle), StatusTick] sampleRoom))
     = requests_of (trace (run [StatusResponse (HttpOk judgedBattle)] sampleRoom))
         @ [statusRequest sampleRoom]"
  by (simp add: sample_defs room_defs in_progress_def statusRequest_def of_append)

subsection \<open>After unmount\<close>

lemma unmounted_step_flags:
  "\<not> isMounted s \<Longrightarrow>
   \<not> isMounted (step e s) \<and> statusInterval (step e s) = statusInterval s
   \<and> segmentsInterval (step e s) = segmentsInterval s"
  by (cases e)
    (simp_all add: room_defs split: http_result.splits option.splits list.splits)

lemma unmounted_step_state: "\<not> isMounted s \<Longrightarrow> same_state s (step e s)"
  by (cases e)
    (simp_all add: same_state_def room_defs split: http_result.splits option.splits list.splits)

lemma unmounted_step_navigations:
  "\<not> isMounted s \<Longrightarrow> navigations_of (trace (step e s)) = navigations_of (trace s)"
  by (cases e)
    (simp_all add: room_defs of_append split: http_result.splits option.splits list.splits)

lemma unmounted_step_polls:
  "\<not> isMounted s \<Longrightarrow> statusInterval s = None \<Longrightarrow> segmentsInterval s = None \<Longrightarrow>
   length (poll_requests (step e s)) + submitPending (step e s)
     \<le> length (poll_requests s) + submitPending s"
  apply (cases e)
             apply (simp_all add: poll_requests_def is_poll_request_def room_defs of_append
               statusRequest_def split: http_result.splits option.splits list.splits)
  done

lemma unmounted_since_step:
  assumes "unmounted_since s u"
  shows "unmounted_since s (step e u)"
proof -
  from assms have u: "\<not> isMounted u" "statusInterval u = None" "segmentsInterval u = None"
    by (simp_all add: unmounted_since_def)
  from assms have "same_state s u" by (simp add: unmounted_since_def)
  moreover have "same_state u (step e u)" using u(1) by (rule unmounted_step_state)
  ultimately have st: "same_state s (step e u)" by (simp add: same_state_def)
  from assms have r: "navigations_of (trace u) = navigations_of (trace s)"
    by (simp add: unmounted_since_def)
  from assms have
    "length (poll_requests u) + submitPending u \<le> length (poll_requests s) + submitPending s"
    by (simp add: unmounted_since_def)
  with unmounted_step_polls [OF u, of e]
  have m: "length (poll_requests (step e u)) + submitPending (step e u)
      \<le> length (poll_requests s) + submitPending s"
    by linarith
  from unmounted_step_flags [OF u(1), of e] u(2,3)
  have f: "\<not> isMounted (step e u)" "statusInterval (step e u) = None"
    "segmentsInterval (step e u) = None"
    by simp_all
  from f(2,3) have ticks: "step StatusTick (step e u) = step e u"
    "step SegmentsTick (step e u) = step e u"
    by simp_all
  show ?thesis
    unfolding unmounted_since_def
    using f ticks unmounted_step_navigations [OF u(1), of e] r st m
    by simp
qed

lemma lobby_unmounted_step:
  "\<not> lobby_isMounted v \<Longrightarrow> lobbyInterval v = None \<Longrightarrow>
   \<not> lobby_isMounted (lobby_step e v) \<and> lobbyInterval (lobby_step e v) = None
   \<and> lobby_same_state v (lobby_step e v)"
  by (cases e)
    (simp_all add: lobby_same_state_def lobby_defs split: http_result.splits list.splits prod.splits)

lemma lobby_unmounted_step_battles:
  "\<not> lobby_isMounted v \<Longrightarrow> lobbyInterval v = None \<Longrightarrow>
   length (battles_requests (lobby_step e v)) + length (joinPending (lobby_step e v))
     \<le> length (battles_requests v) + length (joinPending v)"
  apply (cases e)
                apply (simp_all add: battles_requests_def battlesRequest_def joinRequest_def
                  lobby_defs of_append length_remove1
                  split: http_result.splits list.splits prod.splits option.splits)
  apply (auto dest: length_pos_if_in_set)
  done

lemma lobby_unmounted_since_step:
  assumes "lobby_unmounted_since l v"
  shows "lobby_unmounted_since l (lobby_step e v)"
proof -
  from assms have v: "\<not> lobby_isMounted v" "lobbyInterval v = None"
    by (simp_all add: lobby_unmounted_since_def)
  from assms have a: "lobby_same_state l v"
    "length (battles_requests v) + length (joinPending v)
       \<le> length (battles_requests l) + length (joinPending l)"
    by (simp_all add: lobby_unmounted_since_def)
  from lobby_unmounted_step [OF v, of e] a(1) have st: "lobby_same_state l (lobby_step e v)"
    by (simp add: lobby_same_state_def)
  from a(2) lobby_unmounted_step_battles [OF v, of e]
  have m: "length (battles_requests (lobby_step e v)) + length (joinPending (lobby_step e v))
      \<le> length (battles_requests l) + length (joinPending l)"
    by linarith
  from lobby_unmounted_step [OF v, of e]
  have f: "\<not> lobby_isMounted (lobby_step e v)" "lobbyInterval (lobby_step e v) = None"
    by simp_all
  from f(2) have tick: "lobby_step LobbyTick (lobby_step e v) = lobby_step e v"
    by simp
  show ?thesis
    unfolding lobby_unmounted_since_def
    using f tick st m by simp
qed

text \<open>
  C5, as the code has it. From the unmount of a polling screen on, whatever happens: its
  intervals are cleared, so that a tick sends nothing, no state variable changes, and
  the room does not navigate to the results. The answers to requests that were in flight
  at the unmount are not cancelled: the setters they call have no effect, and the only
  requests to a polled endpoint that are still sent are the status request that follows
  the OK answer to a segment submission in the room and the battles request that
  follows the non-OK answer to a join in the lobby, at most one for each submission,
  respectively join, that was in flight.
\<close>

theorem polling_stops_after_unmount:
  fixes s u :: Room and l v :: "('b, 't) Lobby"
  shows
  "(isMounted s \<and> u = run evs (step Unmount s) \<longrightarrow>
      statusInterval u = None \<and> segmentsInterval u = None
      \<and> step StatusTick u = u \<and> step SegmentsTick u = u
      \<and> navigations_of (trace u) = navigations_of (trace s)
      \<and> same_state s u
      \<and> length (poll_requests u) \<le> length (poll_requests s) + submitPending s)
   \<and> (lobby_isMounted l \<and> v = lobby_run levs (lobby_step LobbyUnmount l) \<longrightarrow>
      lobbyInterval v = None \<and> lobby_step LobbyTick v = v \<and> lobby_same_state l v
      \<and> length (battles_requests v) \<le> length (battles_requests l) + length (joinPending l))"
proof -
  have room: "unmounted_since s (run evs (step Unmount s))" if "isMounted s"
  proof (rule run_invariant)
    from that show "unmounted_since s (step Unmount s)"
      by (simp add: unmounted_since_def same_state_def poll_requests_def room_defs)
  next
    fix e and u :: Room
    assume "unmounted_since s u"
    then show "unmounted_since s (step e u)" by (rule unmounted_since_step)
  qed
  have lobby: "lobby_unmounted_since l (lobby_run levs (lobby_step LobbyUnmount l))"
    if "lobby_isMounted l"
  proof (rule lobby_run_invariant)
    from that show "lobby_unmounted_since l (lobby_step LobbyUnmount l)"
      by (simp add: lobby_unmounted_since_def lobby_same_state_def battles_requests_def
            lobby_defs)
  next
    fix e and v :: "('b, 't) Lobby"
    assume "lobby_unmounted_since l v"
    then show "lobby_unmounted_since l (lobby_step e v)" by (rule lobby_unmounted_since_step)
  qed
  have 1: "isMounted s \<and> u = run evs (step Unmount s) \<longrightarrow>
      statusInterval u = None \<and> segmentsInterval u = None
      \<and> step StatusTick u = u \<and> step SegmentsTick u = u
      \<and> navigations_of (trace u) = navigations_of (trace s)
      \<and> same_state s u
      \<and> length (poll_requests u) \<le> length (poll_requests s) + submitPending s"
    using room by (auto simp: unmounted_since_def)
  have 2: "lobby_isMounted l \<and> v = lobby_run levs (lobby_step LobbyUnmount l) \<longrightarrow>
      lobbyInterval v = None \<and> lobby_step LobbyTick v = v \<and> lobby_same_state l v
      \<and> length (battles_requests v) \<le> length (battles_requests l) + length (joinPending l)"
    using lobby by (auto simp: lobby_unmounted_since_def)
  from 1 2 show ?thesis by (rule conjI)
qed

theorem polling_stops_after_unmount_witness:
  "isMounted inProgressRoom
   \<and> step StatusTick (run [StatusResponse (HttpOk judgedBattle), NavTimer] (step Unmount inProgressRoom))
     = run [StatusResponse (HttpOk judgedBattle), NavTimer] (step Unmount inProgressRoom)
   \<and> same_state inProgressRoom
       (run [StatusResponse (HttpOk judgedBattle), NavTimer] (step Unmount inProgressRoom))
   \<and> navigations_of (trace
       (run [StatusResponse (HttpOk judgedBattle), NavTimer] (step Unmount inProgressRoom)))
     = navigations_of (trace inProgressRoom)
   \<and> isMounted submittingRoom
   \<and> length (poll_requests (run [SubmitResponse (HttpOk ())] (step Unmount submittingRoom)))
     \<le> length (poll_requests submittingRoom) + submitPending submittingRoom
   \<and> lobby_isMounted joiningLobby
   \<and> lobby_step LobbyTick
       (lobby_run [LobbyTick, JoinResponse (js ''b1'') (HttpError \<lparr> detail = None \<rparr>)]
          (lobby_step LobbyUnmount joiningLobby))
     = lobby_run [LobbyTick, JoinResponse (js ''b1'') (HttpError \<lparr> detail = None \<rparr>)]
         (lobby_step LobbyUnmount joiningLobby)
   \<and> lobby_same_state joiningLobby
       (lobby_run [LobbyTick, JoinResponse (js ''b1'') (HttpError \<lparr> detail = None \<rparr>)]
          (lobby_step LobbyUnmount joiningLobby))
   \<and> length (battles_requests
       (lobby_run [LobbyTick, JoinResponse (js ''b1'') (HttpError \<lparr> detail = None \<rparr>)]
          (lobby_step LobbyUnmount joiningLobby)))
     \<le> length (battles_requests joiningLobby) + length (joinPending joiningLobby)"
proof -
  have s: "isMounted inProgressRoom"
    by (simp add: inProgressRoom_def sample_defs room_defs)
  have s2: "isMounted submittingRoom"
    by (simp add: submittingRoom_def turnBattle_def sample_defs room_defs)
  have l: "lobby_isMounted joiningLobby"
    by (simp add: joiningLobby_def sampleLobby_def lobby_mount_def lobby_defs)
  from s s2 l
    polling_stops_after_unmount [where s = inProgressRoom
      and evs = "[StatusResponse (HttpOk judgedBattle), NavTimer]"
      and u = "run [StatusResponse (HttpOk judgedBattle), NavTimer] (step Unmount inProgressRoom)"
      and l = joiningLobby
      and levs = "[LobbyTick, JoinResponse (js ''b1'') (HttpError \<lparr> detail = None \<rparr>)]"
      and v = "lobby_run [LobbyTick, JoinResponse (js ''b1'') (HttpError \<lparr> detail = None \<rparr>)]
                 (lobby_step LobbyUnmount joiningLobby)"]
    polling_stops_after_unmount [where s = submittingRoom
      and evs = "[SubmitResponse (HttpOk ())]"
      and u = "run [SubmitResponse (HttpOk ())] (step Unmount submittingRoom)"
      and l = joiningLobby and levs = "[]"
      and v = "lobby_run [] (lobby_step LobbyUnmount joiningLobby)"]
  show ?thesis by blast
qed

text \<open>
  The requests that are still sent after the unmount: with a segment submission in
  flight in the room, its OK answer sends a status request; with a join in flight in
  the lobby, its non-OK answer sends a battles request.
\<close>

lemma sample_text: "trim (js ''my closing'') \<noteq> []"
proof -
  have "\<not> blank (js ''my closing'')" by code_simp
  then show ?thesis by (simp add: trim_empty_iff)
qed

lemma requests_after_unmount:
  "submitPending submittingRoom = 1
   \<and> requests_of (trace (run [Unmount, SubmitResponse (HttpOk ())] submittingRoom))
     = requests_of (trace submittingRoom) @ [statusRequest submittingRoom]
   \<and> joinPending joiningLobby = [js ''b1'']
   \<and> requests_of (lobby_trace
       (lobby_run [LobbyUnmount, JoinResponse (js ''b1'') (HttpError \<lparr> detail = None \<rparr>)]
          joiningLobby))
     = requests_of (lobby_trace joiningLobby) @ [battlesRequest]"
proof -
  have room: "submitPending submittingRoom = 1"
    "requests_of (trace (run [Unmount, SubmitResponse (HttpOk ())] submittingRoom))
     = requests_of (trace submittingRoom) @ [statusRequest submittingRoom]"
    by (simp_all add: submittingRoom_def turnBattle_def sample_defs room_defs of_append
          submitButtonEnabled_def render_def allSegmentsComplete_iff both_complete_def
          all_submitted_def mySegments_def isPlayer1_def statusRequest_def sample_text)
  have lobby: "joinPending joiningLobby = [js ''b1'']"
    "requests_of (lobby_trace
       (lobby_run [LobbyUnmount, JoinResponse (js ''b1'') (HttpError \<lparr> detail = None \<rparr>)]
          joiningLobby))
     = requests_of (lobby_trace joiningLobby) @ [battlesRequest]"
    by (simp_all add: joiningLobby_def sampleLobby_def lobby_mount_def lobby_defs of_append)
  from room lobby show ?thesis by simp
qed

text \<open>
  C5 as stated fails for a request that is in flight when the screen unmounts: its
  answer still calls the setters.
\<close>

theorem setters_called_after_unmount_counterexample:
  "state_updates_of (trace (run [Unmount] sampleRoom)) = []
   \<and> state_updates_of (trace (run [Unmount, StatusResponse (HttpOk sampleBattle)] sampleRoom))
     = [''battleStatus'', ''loading'']
   \<and> state_updates_of (lobby_trace (lobby_run [LobbyUnmount] sampleLobby)) = []
   \<and> state_updates_of
       (lobby_trace (lobby_run [LobbyUnmount, BattlesResponse (HttpOk [7])] sampleLobby))
     = [''battles'', ''isLoading'']"
proof -
  have room: "state_updates_of (trace (run [Unmount] sampleRoom)) = []"
    "state_updates_of (trace (run [Unmount, StatusResponse (HttpOk sampleBattle)] sampleRoom))
     = [''battleStatus'', ''loading'']"
    by (simp_all add: sample_defs room_defs)
  have lobby: "state_updates_of (lobby_trace (lobby_run [LobbyUnmount] sampleLobby)) = []"
    "state_updates_of
       (lobby_trace (lobby_run [LobbyUnmount, BattlesResponse (HttpOk [7])] sampleLobby))
     = [''battles'', ''isLoading'']"
    by (simp_all add: sampleLobby_def lobby_mount_def lobby_defs)
  from room lobby show ?thesis by simp
qed

subsection \<open>Judgment requests\<close>

lemma judging_step:
  assumes "judgePending s \<le> 1" and "judgePending s = 1 \<longrightarrow> isJudging s"
  shows "judgePending (step e s) \<le> 1 \<and> (judgePending (step e s) = 1 \<longrightarrow> isJudging (step e s))"
  using assms
  by (cases e)
    (auto simp: room_defs judgeButtonEnabled_def render_def
          split: http_result.splits option.splits list.splits if_splits)

lemma judging_run:
  "judgePending (run evs (mount bid uid)) \<le> 1
   \<and> (judgePending (run evs (mount bid uid)) = 1 \<longrightarrow> isJudging (run evs (mount bid uid)))"
proof (rule run_invariant)
  show "judgePending (mount bid uid) \<le> 1
    \<and> (judgePending (mount bid uid) = 1 \<longrightarrow> isJudging (mount bid uid))"
    by (simp add: mount_def room_defs)
next
  fix e and s :: Room
  assume "judgePending s \<le> 1 \<and> (judgePending s = 1 \<longrightarrow> isJudging s)"
  then show "judgePending (step e s) \<le> 1
    \<and> (judgePending (step e s) = 1 \<longrightarrow> isJudging (step e s))"
    using judging_step [of s e] by blast
qed

text \<open>
  C2, as the code has it. In every state the room reaches, at most one judgment request
  is unanswered; while one is, \<open>isJudging\<close> is set and pressing the button does nothing;
  a press sends a request only when the button is shown and no request is unanswered.
  When the request is answered in a mounted room, whatever the answer, \<open>isJudging\<close> is
  reset, so that the button, if still shown, can be pressed again.
\<close>

theorem judge_requests_never_overlap:
  "s = run evs (mount bid uid) \<Longrightarrow>
   judgePending s \<le> 1
   \<and> (0 < judgePending s \<longrightarrow> isJudging s \<and> step PressJudge s = s)
   \<and> (step PressJudge s \<noteq> s \<longrightarrow> judgeButtonShown s \<and> judgePending s = 0)
   \<and> (isMounted s \<and> 0 < judgePending s \<longrightarrow>
        judgePending (step (JudgeResponse r) s) = 0
        \<and> \<not> isJudging (step (JudgeResponse r) s)
        \<and> judgeButtonEnabled (step (JudgeResponse r) s) = judgeButtonShown s)"
proof -
  assume s: "s = run evs (mount bid uid)"
  have inv: "judgePending s \<le> 1" "judgePending s = 1 \<longrightarrow> isJudging s"
    using judging_run [of evs bid uid] s by simp_all
  have a: "0 < judgePending s \<longrightarrow> isJudging s \<and> step PressJudge s = s"
    using inv
    by (auto simp: judgeButtonEnabled_def render_def split: option.splits)
  have b: "step PressJudge s \<noteq> s \<longrightarrow> judgeButtonShown s \<and> judgePending s = 0"
    using inv
    by (auto simp: judgeButtonEnabled_def judgeButtonShown_def render_def
          split: option.splits if_splits rendered.splits)
  have c: "isMounted s \<and> 0 < judgePending s \<longrightarrow>
        judgePending (step (JudgeResponse r) s) = 0
        \<and> \<not> isJudging (step (JudgeResponse r) s)
        \<and> judgeButtonEnabled (step (JudgeResponse r) s) = judgeButtonShown s"
    using inv
    by (cases r)
      (auto simp: room_defs judgeButtonEnabled_def judgeButtonShown_def render_def
            split: option.splits)
  from inv(1) a b c show ?thesis by blast
qed

lemmas judge_eval =
  sample_defs room_defs judgeButtonEnabled_def judgeButtonShown_def render_def
  allSegmentsComplete_iff both_complete_def all_submitted_def judge_requests_def
  judgeRequest_def statusRequest_def segmentsRequest_def

theorem judge_requests_never_overlap_witness:
  "0 < judgePending judgingRoom \<and> isMounted judgingRoom
   \<and> isJudging judgingRoom \<and> step PressJudge judgingRoom = judgingRoom
   \<and> judgePending (step (JudgeResponse (HttpOk ())) judgingRoom) = 0
   \<and> \<not> isJudging (step (JudgeResponse (HttpOk ())) judgingRoom)"
proof -
  have s: "0 < judgePending judgingRoom" "isMounted judgingRoom"
    by (simp_all add: judgingRoom_def judge_eval)
  have r: "judgingRoom
      = run [StatusResponse (HttpOk sampleBattle), PressJudge] (mount (js ''b1'') (Some (js ''u1'')))"
    by (simp only: judgingRoom_def sampleRoom_def)
  from s
    judge_requests_never_overlap [OF r, where r = "HttpOk ()"]
  show ?thesis by blast
qed

text \<open>
  C2 as stated fails after a request has succeeded: the button is enabled again and a
  second press sends a second request for the same battle.
\<close>

theorem second_judge_request_counterexample:
  "judge_requests
     (run [StatusResponse (HttpOk sampleBattle), PressJudge, JudgeResponse (HttpOk ()), PressJudge]
        sampleRoom)
   = [judgeRequest sampleRoom, judgeRequest sampleRoom]"
  by (simp add: judge_eval)

subsection \<open>Navigation to the results\<close>

lemma navigations_unmounted_step:
  "\<not> isMounted s \<Longrightarrow>
   \<not> isMounted (step e s) \<and> navigations_of (trace (step e s)) = navigations_of (trace s)"
  by (cases e)
    (auto simp: room_defs of_append split: http_result.splits option.splits list.splits)

lemma navigations_unmounted_run:
  "\<not> isMounted s \<Longrightarrow> navigations_of (trace (run evs s)) = navigations_of (trace s)"
proof (induction evs arbitrary: s)
  case Nil
  then show ?case by simp
next
  case (Cons e evs)
  from Cons.prems have "\<not> isMounted (step e s)"
    and "navigations_of (trace (step e s)) = navigations_of (trace s)"
    using navigations_unmounted_step [of s e] by simp_all
  with Cons.IH [of "step e s"] show ?case by simp
qed

text \<open>
  The guard of the navigation. \<open>fetchBattleStatus\<close>, given an answer that shows
  \<open>status == 'completed'\<close> with a truthy judgment while the screen is mounted, sets
  one timeout (and no timeout for any other answer); when a timeout runs, it
  navigates to the results if and only if the screen is still mounted; nothing else
  navigates. So no navigation happens after the unmount, and when the screen is
  unmounted right after a navigation, that navigation is the last.
\<close>

theorem results_navigation_guarded:
  "navTimers (fetchBattleStatus_settle (HttpOk data) s)
        = navTimers s @
            (case judgement data of
               None \<Rightarrow> []
             | Some j \<Rightarrow> if status data = js ''completed'' \<and> isMounted s then [j] else [])
   \<and> navigations_of (trace (step NavTimer s))
        = navigations_of (trace s) @
            (case navTimers s of
               [] \<Rightarrow> []
             | j # rest \<Rightarrow>
                 if isMounted s
                 then [RouterReplace ''/battle/results''
                         [(''battleId'', battleId s), (''judgmentData'', j)]]
                 else [])
   \<and> (e \<noteq> NavTimer \<longrightarrow> navigations_of (trace (step e s)) = navigations_of (trace s))
   \<and> (\<not> isMounted s \<longrightarrow> navigations_of (trace (run evs s)) = navigations_of (trace s))
   \<and> (isMounted s \<and> navTimers s \<noteq> [] \<longrightarrow>
        length (navigations_of (trace (run (NavTimer # Unmount # evs) s)))
          = length (navigations_of (trace s)) + 1)"
proof -
  have a: "navTimers (fetchBattleStatus_settle (HttpOk data) s)
        = navTimers s @
            (case judgement data of
               None \<Rightarrow> []
             | Some j \<Rightarrow> if status data = js ''completed'' \<and> isMounted s then [j] else [])"
    by (simp add: room_defs split: option.splits)
  have b: "navigations_of (trace (step NavTimer s))
        = navigations_of (trace s) @
            (case navTimers s of
               [] \<Rightarrow> []
             | j # rest \<Rightarrow>
                 if isMounted s
                 then [RouterReplace ''/battle/results''
                         [(''battleId'', battleId s), (''judgmentData'', j)]]
                 else [])"
    by (simp add: room_defs of_append split: list.splits)
  have c: "e \<noteq> NavTimer \<longrightarrow> navigations_of (trace (step e s)) = navigations_of (trace s)"
    by (cases e)
      (auto simp: room_defs of_append split: http_result.splits option.splits)
  have d: "\<not> isMounted s \<longrightarrow> navigations_of (trace (run evs s)) = navigations_of (trace s)"
    using navigations_unmounted_run [of s evs] by simp
  have e: "isMounted s \<and> navTimers s \<noteq> [] \<longrightarrow>
        length (navigations_of (trace (run (NavTimer # Unmount # evs) s)))
          = length (navigations_of (trace s)) + 1"
  proof
    assume h: "isMounted s \<and> navTimers s \<noteq> []"
    let ?u = "step Unmount (step NavTimer s)"
    from h have u: "\<not> isMounted ?u"
      "length (navigations_of (trace ?u)) = length (navigations_of (trace s)) + 1"
      by (auto simp: room_defs of_append split: list.splits)
    from u(1) have "navigations_of (trace (run evs ?u)) = navigations_of (trace ?u)"
      by (rule navigations_unmounted_run)
    with u(2) show "length (navigations_of (trace (run (NavTimer # Unmount # evs) s)))
          = length (navigations_of (trace s)) + 1"
      by simp
  qed
  from a b c d e show ?thesis by blast
qed

theorem results_navigation_guarded_witness:
  "isMounted completedRoom \<and> navTimers completedRoom \<noteq> []
   \<and> length (navigations_of (trace
        (run (NavTimer # Unmount # [StatusResponse (HttpOk judgedBattle), NavTimer]) completedRoom)))
     = length (navigations_of (trace completedRoom)) + 1
   \<and> \<not> isMounted (step Unmount completedRoom)
   \<and> navigations_of (trace (run [NavTimer] (step Unmount completedRoom)))
     = navigations_of (trace (step Unmount completedRoom))"
proof -
  have s: "isMounted completedRoom" "navTimers completedRoom \<noteq> []"
    by (simp_all add: completedRoom_def sample_defs room_defs)
  have u: "\<not> isMounted (step Unmount completedRoom)"
    using s(1) by (simp add: unmount_def)
  from s u
    results_navigation_guarded [where s = completedRoom and data = judgedBattle and e = NavTimer
      and evs = "[StatusResponse (HttpOk judgedBattle), NavTimer]"]
    results_navigation_guarded [where s = "step Unmount completedRoom" and data = judgedBattle
      and e = NavTimer and evs = "[NavTimer]"]
  show ?thesis by blast
qed

text \<open>
  C1. The navigation to the results is meant to happen once for a completed battle (the
  source leaves it to the polling "to avoid double navigation"), but nothing records
  that it has happened. When the status request of the mount and the one of the first
  tick are both answered with the completed battle before the screen is unmounted, each
  answer sets its timeout and both timeouts navigate: the room navigates twice.
\<close>

theorem double_navigation_at_concurrent_answers:
  "navigations_of (trace
      (run [StatusTick, StatusResponse (HttpOk judgedBattle), StatusResponse (HttpOk judgedBattle),
            NavTimer, NavTimer] sampleRoom))
   = [RouterReplace ''/battle/results'' [(''battleId'', js ''b1''), (''judgmentData'', js ''{}'')],
      RouterReplace ''/battle/results'' [(''battleId'', js ''b1''), (''judgmentData'', js ''{}'')]]"
  by (simp add: sample_defs room_defs statusRequest_def)

end
